theory Spec2Isabelle
  imports Complex_Main "HOL-Library.Sublist" "HOL-Library.Char_ord" "HOL-Library.List_Lexorder"
begin

section \<open>Data model (api.ts, App.tsx)\<close>

text \<open>
  \<^verbatim>\<open>interface Question\<close> of api.ts. An optional field (\<^verbatim>\<open>title?: string\<close>) is an
  \<open>option\<close>: \<open>None\<close> is JavaScript's \<^verbatim>\<open>undefined\<close>. The field \<^verbatim>\<open>id\<close> is named \<open>qid\<close>.
  Strings are lists of characters; numbers that hold identifiers, counters and
  epoch milliseconds are integers.
\<close>

record question =
  qid :: int
  title :: "string option"
  url :: "string option"
  topic :: "string option"
  tags :: "string list"
  difficulty :: "string option"
  companies :: "string list"
  task_text :: "string option"
  task_html :: "string option"
  hint :: "string option"
  solution :: "string option"
  answer :: "string option"
  is_solved :: bool
  attempts :: int
  avg_time_seconds :: "real option"

text \<open>\<^verbatim>\<open>interface Stats\<close> of api.ts; a \<^verbatim>\<open>Record<string, number>\<close> is an association list.\<close>

record stats =
  total_questions :: int
  solved_questions :: int
  stats_avg_time_seconds :: "real option"
  solved_by_difficulty :: "(string \<times> int) list"
  daily_solved :: "(string \<times> int) list option"
  solved_by_topic :: "(string \<times> int) list option"
  solved_by_company :: "(string \<times> int) list option"

text \<open>\<^verbatim>\<open>interface Filters\<close> of App.tsx; the fields carry the prefix \<open>f_\<close>.\<close>

record filters =
  f_difficulty :: string
  f_company :: string
  f_topics :: "string list"
  f_tags :: "string list"
  f_search :: string
  f_onlyUnsolved :: bool

definition defaultFilters :: filters where
  "defaultFilters =
     \<lparr>f_difficulty = [], f_company = [], f_topics = [], f_tags = [],
      f_search = [], f_onlyUnsolved = False\<rparr>"

section \<open>JavaScript primitives used by the code\<close>

text \<open>
  A string is truthy when it is not empty; an optional string is truthy when it is
  present and not empty. \<^verbatim>\<open>x || ""\<close> on an optional string is \<open>or_empty\<close>.
\<close>

definition truthy :: "string option \<Rightarrow> bool" where
  "truthy x = (case x of None \<Rightarrow> False | Some s \<Rightarrow> s \<noteq> [])"

definition or_empty :: "string option \<Rightarrow> string" where
  "or_empty x = (case x of None \<Rightarrow> [] | Some s \<Rightarrow> s)"

text \<open>
  \<^verbatim>\<open>String.prototype.toLowerCase\<close> is the runtime's Unicode lower-casing (with its
  context rules, such as the final sigma), not code of the repository. The filter
  takes it as the parameter \<open>lc\<close>, a function from strings to strings, and every
  statement about the filter is for every such function.
\<close>

text \<open>
  \<^verbatim>\<open>haystack.includes(s)\<close> on strings: does \<open>s\<close> occur in \<open>haystack\<close> at some
  position? The scan tries every start position from the left.
\<close>

fun includes_str :: "string \<Rightarrow> string \<Rightarrow> bool" where
  "includes_str [] s = (s = [])"
| "includes_str (h # hs) s = (prefix s (h # hs) \<or> includes_str hs s)"

text \<open>\<^verbatim>\<open>Math.round\<close> (ties go up), \<^verbatim>\<open>Math.floor\<close>.\<close>

definition Math_round :: "real \<Rightarrow> int" where
  "Math_round x = \<lfloor>x + 1 / 2\<rfloor>"

definition Math_floor :: "real \<Rightarrow> int" where
  "Math_floor x = \<lfloor>x\<rfloor>"

text \<open>
  A JavaScript number is an IEEE 754 double, and the product of two doubles is the exact
  product rounded to the nearest double, ties to the even significand. For a value
  \<open>x \<ge> 0\<close> below \<open>2^1024\<close>: \<open>expo x\<close> is the exponent of its binade
  (\<open>2^e \<le> x < 2^(e+1)\<close>, and \<open>-1022\<close> for every smaller value, the
  subnormal range), found by halving or doubling; \<open>ulp x\<close> is the spacing of the
  doubles there (52 fraction bits); \<open>to_double x\<close> is the nearest multiple of that
  spacing, ties to the even multiple. A double is a value that rounding leaves alone.
\<close>

fun exp_up :: "nat \<Rightarrow> real \<Rightarrow> int" where
  "exp_up 0 x = 0"
| "exp_up (Suc k) x = (if x < 2 then 0 else exp_up k (x / 2) + 1)"

fun exp_down :: "nat \<Rightarrow> real \<Rightarrow> int" where
  "exp_down 0 x = 0"
| "exp_down (Suc k) x = (if 1 \<le> x then 0 else exp_down k (2 * x) - 1)"

definition expo :: "real \<Rightarrow> int" where
  "expo x = (if 1 \<le> x then exp_up 1023 x else exp_down 1022 x)"

definition ulp :: "real \<Rightarrow> real" where
  "ulp x = 2 powi (expo x - 52)"

definition round_half_even :: "real \<Rightarrow> int" where
  "round_half_even y =
     (let f = \<lfloor>y\<rfloor>; d = y - real_of_int f
      in if d < 1 / 2 then f else if 1 / 2 < d then f + 1 else if even f then f else f + 1)"

definition to_double :: "real \<Rightarrow> real" where
  "to_double x = real_of_int (round_half_even (x / ulp x)) * ulp x"

definition is_double :: "real \<Rightarrow> bool" where
  "is_double x = (to_double x = x)"

section \<open>Filter engine (App.tsx, filteredQuestions)\<close>

text \<open>
  The callback of \<^verbatim>\<open>questions.filter\<close>: a chain of early \<^verbatim>\<open>return false\<close>, kept in
  the order of the source.
\<close>

definition haystack :: "(string \<Rightarrow> string) \<Rightarrow> question \<Rightarrow> string" where
  "haystack lc q = lc (or_empty (title q) @ '' '' @ or_empty (task_text q))"

definition keep :: "(string \<Rightarrow> string) \<Rightarrow> filters \<Rightarrow> question \<Rightarrow> bool" where
  "keep lc f q =
     (if f_difficulty f \<noteq> [] \<and> difficulty q \<noteq> Some (f_difficulty f) then False
      else if f_topics f \<noteq> [] \<and>
              (\<not> truthy (topic q) \<or> \<not> List.member (f_topics f) (or_empty (topic q))) then False
      else if f_company f \<noteq> [] \<and> \<not> List.member (companies q) (f_company f) then False
      else if f_tags f \<noteq> [] \<and> \<not> list_all (\<lambda>t. List.member (tags q) t) (f_tags f) then False
      else if f_onlyUnsolved f \<and> is_solved q then False
      else if f_search f \<noteq> [] \<and> \<not> includes_str (haystack lc q) (lc (f_search f)) then False
      else True)"

definition filteredQuestions ::
  "(string \<Rightarrow> string) \<Rightarrow> filters \<Rightarrow> question list \<Rightarrow> question list" where
  "filteredQuestions lc f questions = filter (keep lc f) questions"

text \<open>
  \<^verbatim>\<open>uniqueTopics\<close>: the distinct truthy topics of the catalog, sorted. The topic picker
  offers exactly these labels.
\<close>

definition uniqueTopics :: "question list \<Rightarrow> string list" where
  "uniqueTopics questions =
     sort (remdups (map or_empty (filter truthy (map topic questions))))"

section \<open>Application state (App.tsx, the useState cells of App)\<close>

text \<open>
  The user-visible messages. The source builds them from literals (in Russian); each
  constructor stands for one literal, with the interpolated values as arguments:
  \<open>DetailAlreadySolved\<close> "the task is already marked as solved" (handleMarkSolved),
  \<open>SolvedSaved d\<close> "task marked as solved (time about d s)",
  \<open>AttemptSaved d\<close> "attempt saved (time about d s)",
  \<open>SaveError m\<close> "error while saving progress: m" (both handlers),
  \<open>TrainingAlreadySolved\<close> "this task has already been solved" (handleTrainingMark),
  \<open>LoadFailed\<close> "could not load the tasks",
  \<open>NoTrainingQuestions\<close> "no tasks for training",
  \<open>AllSolved\<close> "all tasks are solved".
\<close>

datatype message =
    DetailAlreadySolved
  | SolvedSaved int
  | AttemptSaved int
  | SaveError string
  | TrainingAlreadySolved
  | LoadFailed
  | NoTrainingQuestions
  | AllSolved

datatype view_mode = ViewQuestions | ViewStats | ViewTraining

record app_state =
  questions :: "question list"
  stats_cell :: "stats option"
  selectedQuestion :: "question option"
  view :: view_mode
  startTime :: "int option"
  showHint :: bool
  showSolution :: bool
  showAnswer :: bool
  infoMessage :: "message option"
  trainingQuestion :: "question option"
  trainingModeRunning :: bool
  trainingStartTime :: "int option"
  trainingElapsedSec :: int
  trainingShowHint :: bool
  trainingShowSolution :: bool
  trainingShowAnswer :: bool
  trainingInfoMessage :: "message option"
  recentSolvedId :: "int option"

text \<open>
  The remote service and the browser, as seen by one run of a handler: the requests the
  handler sends are returned as a list of \<open>call\<close>s, in order; what the service answers,
  what \<^verbatim>\<open>Date.now()\<close> reads and what \<^verbatim>\<open>Math.random()\<close> draws are the fields of \<open>env\<close>.
  A rejected promise is \<open>Inl\<close> of the error's message.
\<close>

datatype call =
    UpdateProgress int int bool
  | FetchQuestions
  | FetchStats

record env =
  now_start :: int
  now_end :: int
  updateProgress_result :: "string + unit"
  fetchQuestions_result :: "string + question list"
  fetchStats_result :: "string + stats"
  random_draw :: real

text \<open>
  A handler is a closure over the state of the render that created it. It reads that
  snapshot (\<open>snap\<close>) for its whole run, also after an \<^verbatim>\<open>await\<close>; its \<^verbatim>\<open>setX\<close> calls
  accumulate in the state that the next render shows (\<open>acc\<close>). One handler runs at a
  time.
\<close>

text \<open>\<^verbatim>\<open>qs.find((q) => q.id === x.id)\<close>\<close>

definition find_by_id :: "question list \<Rightarrow> int \<Rightarrow> question option" where
  "find_by_id qs i = List.find (\<lambda>q. qid q = i) qs"

definition refreshed :: "question list \<Rightarrow> question option \<Rightarrow> question option \<Rightarrow> question option" where
  "refreshed qs snap_q acc_q =
     (case snap_q of
        None \<Rightarrow> acc_q
      | Some x \<Rightarrow> (case find_by_id qs (qid x) of None \<Rightarrow> acc_q | Some u \<Rightarrow> Some u))"

definition reloadQuestions :: "app_state \<Rightarrow> string + question list \<Rightarrow> app_state \<Rightarrow> string + app_state" where
  "reloadQuestions snap resp acc =
     (case resp of
        Inl msg \<Rightarrow> Inl msg
      | Inr qs \<Rightarrow>
          Inr (acc\<lparr>questions := qs,
                   selectedQuestion := refreshed qs (selectedQuestion snap) (selectedQuestion acc),
                   trainingQuestion := refreshed qs (trainingQuestion snap) (trainingQuestion acc)\<rparr>))"

definition reloadStats :: "string + stats \<Rightarrow> app_state \<Rightarrow> string + app_state" where
  "reloadStats resp acc =
     (case resp of Inl msg \<Rightarrow> Inl msg | Inr s \<Rightarrow> Inr (acc\<lparr>stats_cell := Some s\<rparr>))"

text \<open>
  The duration sent with a progress event:
  \<^verbatim>\<open>start !== null ? Math.max(1, Math.round((end - start) / 1000)) : 60\<close>
\<close>

definition deltaSec :: "int option \<Rightarrow> int \<Rightarrow> int" where
  "deltaSec start end =
     (case start of
        Some st \<Rightarrow> max 1 (Math_round (real_of_int (end - st) / 1000))
      | None \<Rightarrow> 60)"

section \<open>Detail session (App.tsx, handleSelectQuestion and handleMarkSolved)\<close>

definition handleSelectQuestion :: "app_state \<Rightarrow> question \<Rightarrow> int \<Rightarrow> app_state" where
  "handleSelectQuestion snap q now =
     (case selectedQuestion snap of
        Some sq \<Rightarrow>
          if qid sq = qid q then snap\<lparr>startTime := Some now\<rparr>
          else snap\<lparr>selectedQuestion := Some q, startTime := Some now, showHint := False,
                    showSolution := False, showAnswer := False, infoMessage := None\<rparr>
      | None \<Rightarrow>
          snap\<lparr>selectedQuestion := Some q, startTime := Some now, showHint := False,
               showSolution := False, showAnswer := False, infoMessage := None\<rparr>)"

text \<open>
  \<^verbatim>\<open>triggerSolvedPulse\<close> sets \<^verbatim>\<open>recentSolvedId\<close>; \<^verbatim>\<open>spawnConfetti\<close> touches only the
  confetti cells, which are not part of this state.
\<close>

definition handleMarkSolved :: "app_state \<Rightarrow> bool \<Rightarrow> env \<Rightarrow> app_state \<times> call list" where
  "handleMarkSolved snap solved e =
     (case selectedQuestion snap of
        None \<Rightarrow> (snap, [])
      | Some sq \<Rightarrow>
          if solved \<and> is_solved sq then (snap\<lparr>infoMessage := Some DetailAlreadySolved\<rparr>, [])
          else
            (let d = deltaSec (startTime snap) (now_start e);
                 submit = UpdateProgress (qid sq) d solved
             in (case updateProgress_result e of
                 Inl msg \<Rightarrow> (snap\<lparr>infoMessage := Some (SaveError msg)\<rparr>, [submit])
               | Inr u \<Rightarrow>
                   (case reloadQuestions snap (fetchQuestions_result e) snap of
                      Inl msg \<Rightarrow>
                        (snap\<lparr>infoMessage := Some (SaveError msg)\<rparr>, [submit, FetchQuestions])
                    | Inr s1 \<Rightarrow>
                        (case reloadStats (fetchStats_result e) s1 of
                           Inl msg \<Rightarrow>
                             (s1\<lparr>infoMessage := Some (SaveError msg)\<rparr>,
                              [submit, FetchQuestions, FetchStats])
                         | Inr s2 \<Rightarrow>
                             (s2\<lparr>startTime := Some (now_end e),
                                 infoMessage := Some (if solved then SolvedSaved d else AttemptSaved d),
                                 recentSolvedId := (if solved then Some (qid sq) else recentSolvedId s2)\<rparr>,
                              [submit, FetchQuestions, FetchStats]))))))"

section \<open>Training session (App.tsx)\<close>

text \<open>
  \<^verbatim>\<open>pickRandomTrainingQuestion\<close>, on the catalog of the snapshot and a draw \<open>r\<close> of
  \<^verbatim>\<open>Math.random()\<close>. The index is \<^verbatim>\<open>Math.floor(Math.random() * pool.length)\<close>, with
  the product of the two doubles rounded to a double. An index outside the pool reads
  \<^verbatim>\<open>undefined\<close>, which every caller treats as "no question".
\<close>

definition training_pool :: "question list \<Rightarrow> question list" where
  "training_pool qs =
     (let unsolved = filter (\<lambda>q. \<not> is_solved q) qs in if unsolved \<noteq> [] then unsolved else qs)"

definition random_index :: "real \<Rightarrow> nat \<Rightarrow> int" where
  "random_index r n = Math_floor (to_double (r * real n))"

definition pickRandomTrainingQuestion :: "question list \<Rightarrow> real \<Rightarrow> question option" where
  "pickRandomTrainingQuestion qs r =
     (if qs = [] then None
      else
        let pool = training_pool qs in
        if pool = [] then None
        else
          let idx = random_index r (length pool) in
          if 0 \<le> idx \<and> idx < int (length pool) then Some (pool ! nat idx) else None)"

text \<open>
  \<^verbatim>\<open>startTrainingSession\<close>. The check \<^verbatim>\<open>!questions.length\<close> and the later call of
  \<^verbatim>\<open>pickRandomTrainingQuestion()\<close> both read \<^verbatim>\<open>questions\<close> of the handler's render:
  the pick is on the snapshot's catalog also after \<^verbatim>\<open>await reloadQuestions()\<close>.
\<close>

definition startTrainingSession :: "app_state \<Rightarrow> env \<Rightarrow> app_state \<times> call list" where
  "startTrainingSession snap e =
     (let s0 = snap\<lparr>view := ViewTraining, trainingInfoMessage := None\<rparr>;
          loaded =
            (if questions snap = [] then
               (case reloadQuestions snap (fetchQuestions_result e) s0 of
                  Inl msg \<Rightarrow> Inl (s0\<lparr>trainingInfoMessage := Some LoadFailed\<rparr>)
                | Inr s1 \<Rightarrow> Inr (s1, [FetchQuestions]))
             else Inr (s0, []))
      in case loaded of
           Inl s \<Rightarrow> (s, [FetchQuestions])
         | Inr (s1, calls) \<Rightarrow>
             (case pickRandomTrainingQuestion (questions snap) (random_draw e) of
                None \<Rightarrow>
                  (s1\<lparr>trainingModeRunning := False, trainingQuestion := None,
                      trainingInfoMessage := Some NoTrainingQuestions\<rparr>, calls)
              | Some q \<Rightarrow>
                  (s1\<lparr>trainingQuestion := Some q, trainingModeRunning := True,
                      trainingStartTime := Some (now_end e), trainingElapsedSec := 0,
                      trainingShowHint := False, trainingShowSolution := False,
                      trainingShowAnswer := False\<rparr>, calls)))"

definition stopTrainingSession :: "app_state \<Rightarrow> app_state" where
  "stopTrainingSession snap =
     snap\<lparr>trainingModeRunning := False, trainingQuestion := None, trainingStartTime := None,
          trainingElapsedSec := 0, trainingShowHint := False, trainingShowSolution := False,
          trainingShowAnswer := False, trainingInfoMessage := None\<rparr>"

text \<open>
  The training timer: the effect installs the interval only while
  \<^verbatim>\<open>trainingModeRunning && trainingStartTime\<close> is truthy (a start time of 0 is
  falsy); \<open>timer_tick\<close> is one run of the interval's callback at wall-clock time \<open>now\<close>.
\<close>

definition timer_active :: "app_state \<Rightarrow> bool" where
  "timer_active s =
     (trainingModeRunning s \<and>
      (case trainingStartTime s of None \<Rightarrow> False | Some st \<Rightarrow> st \<noteq> 0))"

definition elapsed_display :: "int \<Rightarrow> int \<Rightarrow> int" where
  "elapsed_display now st = max 0 (Math_floor (real_of_int (now - st) / 1000))"

definition timer_tick :: "app_state \<Rightarrow> int \<Rightarrow> app_state" where
  "timer_tick s now =
     (case trainingStartTime s of
        Some st \<Rightarrow>
          if timer_active s then s\<lparr>trainingElapsedSec := elapsed_display now st\<rparr> else s
      | None \<Rightarrow> s)"

text \<open>
  \<^verbatim>\<open>handleTrainingMark\<close>. After the three awaits, \<^verbatim>\<open>pickRandomTrainingQuestion()\<close> is the
  closure of the handler's render and draws from the snapshot's catalog;
  \<^verbatim>\<open>setTrainingQuestion(next)\<close> then overrides what \<^verbatim>\<open>reloadQuestions\<close> wrote.
\<close>

definition handleTrainingMark :: "app_state \<Rightarrow> bool \<Rightarrow> env \<Rightarrow> app_state \<times> call list" where
  "handleTrainingMark snap solved e =
     (case trainingQuestion snap of
        None \<Rightarrow> (snap, [])
      | Some tq \<Rightarrow>
          if solved \<and> is_solved tq then
            (snap\<lparr>trainingInfoMessage := Some TrainingAlreadySolved\<rparr>, [])
          else
            (let d = deltaSec (trainingStartTime snap) (now_start e);
                 submit = UpdateProgress (qid tq) d solved
             in (case updateProgress_result e of
                 Inl msg \<Rightarrow> (snap\<lparr>trainingInfoMessage := Some (SaveError msg)\<rparr>, [submit])
               | Inr u \<Rightarrow>
                   (case reloadQuestions snap (fetchQuestions_result e) snap of
                      Inl msg \<Rightarrow>
                        (snap\<lparr>trainingInfoMessage := Some (SaveError msg)\<rparr>,
                         [submit, FetchQuestions])
                    | Inr s1 \<Rightarrow>
                        (case reloadStats (fetchStats_result e) s1 of
                           Inl msg \<Rightarrow>
                             (s1\<lparr>trainingInfoMessage := Some (SaveError msg)\<rparr>,
                              [submit, FetchQuestions, FetchStats])
                         | Inr s2 \<Rightarrow>
                             (let s3 = s2\<lparr>recentSolvedId :=
                                            (if solved then Some (qid tq) else recentSolvedId s2)\<rparr>
                              in (case pickRandomTrainingQuestion (questions snap) (random_draw e) of
                                   None \<Rightarrow>
                                     (s3\<lparr>trainingModeRunning := False, trainingQuestion := None,
                                         trainingStartTime := None, trainingElapsedSec := 0,
                                         trainingInfoMessage := Some AllSolved\<rparr>,
                                      [submit, FetchQuestions, FetchStats])
                                 | Some next \<Rightarrow>
                                     (s3\<lparr>trainingQuestion := Some next,
                                         trainingStartTime := Some (now_end e),
                                         trainingElapsedSec := 0, trainingShowHint := False,
                                         trainingShowSolution := False,
                                         trainingShowAnswer := False,
                                         trainingInfoMessage := None\<rparr>,
                                      [submit, FetchQuestions, FetchStats]))))))))"

section \<open>The properties' vocabulary\<close>

subsection \<open>Filter dimensions\<close>

text \<open>
  The six dimensions of the filter, each stated on its own: an inactive dimension (an
  empty criterion) accepts every question. A question whose topic is the empty string
  has no topic label, as for \<open>uniqueTopics\<close>.
\<close>

definition dim_difficulty :: "filters \<Rightarrow> question \<Rightarrow> bool" where
  "dim_difficulty f q = (f_difficulty f = [] \<or> difficulty q = Some (f_difficulty f))"

definition dim_topics :: "filters \<Rightarrow> question \<Rightarrow> bool" where
  "dim_topics f q =
     (f_topics f = [] \<or> (\<exists>t. topic q = Some t \<and> t \<noteq> [] \<and> t \<in> set (f_topics f)))"

definition dim_company :: "filters \<Rightarrow> question \<Rightarrow> bool" where
  "dim_company f q = (f_company f = [] \<or> f_company f \<in> set (companies q))"

definition dim_tags :: "filters \<Rightarrow> question \<Rightarrow> bool" where
  "dim_tags f q = (set (f_tags f) \<subseteq> set (tags q))"

definition dim_unsolved :: "filters \<Rightarrow> question \<Rightarrow> bool" where
  "dim_unsolved f q = (\<not> (f_onlyUnsolved f \<and> is_solved q))"

definition dim_search :: "(string \<Rightarrow> string) \<Rightarrow> filters \<Rightarrow> question \<Rightarrow> bool" where
  "dim_search lc f q =
     (f_search f = [] \<or>
      sublist (lc (f_search f)) (lc (or_empty (title q) @ '' '' @ or_empty (task_text q))))"

definition all_dims :: "(string \<Rightarrow> string) \<Rightarrow> filters \<Rightarrow> question \<Rightarrow> bool" where
  "all_dims lc f q =
     (dim_difficulty f q \<and> dim_topics f q \<and> dim_company f q \<and> dim_tags f q \<and>
      dim_unsolved f q \<and> dim_search lc f q)"

text \<open>
  Three facts of \<^verbatim>\<open>toLowerCase\<close> about the space and the empty string: a space stays a
  space, only the empty string becomes empty, only a space becomes a space.
\<close>

definition lower_facts :: "(string \<Rightarrow> string) \<Rightarrow> bool" where
  "lower_facts lc =
     (lc '' '' = '' '' \<and> (\<forall>s. lc s = [] \<longrightarrow> s = []) \<and> (\<forall>s. lc s = '' '' \<longrightarrow> s = '' ''))"


text \<open>
  The checkbox of the topic picker (\<^verbatim>\<open>checked ? prev.topics.filter((x) => x !== t) :
  [...prev.topics, t]\<close>), for a label \<open>t\<close> the picker offers.
\<close>

definition toggle_topic :: "filters \<Rightarrow> string \<Rightarrow> filters" where
  "toggle_topic f t =
     (if List.member (f_topics f) t then f\<lparr>f_topics := filter (\<lambda>x. x \<noteq> t) (f_topics f)\<rparr>
      else f\<lparr>f_topics := f_topics f @ [t]\<rparr>)"

subsection \<open>Submissions and consecutive calls\<close>

definition is_submission :: "call \<Rightarrow> bool" where
  "is_submission c = (case c of UpdateProgress i d b \<Rightarrow> True | FetchQuestions \<Rightarrow> False | FetchStats \<Rightarrow> False)"

definition submissions :: "call list \<Rightarrow> call list" where
  "submissions cs = filter is_submission cs"

text \<open>
  Two consecutive clicks on "solved" in the detail view: the second handler is the
  closure of the render that shows the state the first one left.
\<close>

definition mark_solved_twice :: "app_state \<Rightarrow> env \<Rightarrow> env \<Rightarrow> app_state \<times> call list" where
  "mark_solved_twice s e1 e2 =
     (let r1 = handleMarkSolved s True e1;
          r2 = handleMarkSolved (fst r1) True e2
      in (fst r2, snd r1 @ snd r2))"

subsection \<open>Reveal flags\<close>

text \<open>The three reveal blocks of the training view are hidden.\<close>

definition training_flags_hidden :: "app_state \<Rightarrow> bool" where
  "training_flags_hidden s =
     (\<not> trainingShowHint s \<and> \<not> trainingShowSolution s \<and> \<not> trainingShowAnswer s)"

subsection \<open>Concrete inputs\<close>

text \<open>
  Lower-casing of text in ASCII, where \<^verbatim>\<open>toLowerCase\<close> sends the letters \<open>A\<close> to \<open>Z\<close>
  (codes 65 to 90) to \<open>a\<close> to \<open>z\<close> and keeps every other character: the instance of
  \<open>lc\<close> for the concrete inputs below, which are all ASCII.
\<close>

definition ascii_lower_char :: "char \<Rightarrow> char" where
  "ascii_lower_char c =
     (let n = (of_char c :: nat) in if 65 \<le> n \<and> n \<le> 90 then char_of (n + 32) else c)"

definition ascii_lower :: "string \<Rightarrow> string" where
  "ascii_lower s = map ascii_lower_char s"

text \<open>Questions and catalogs.\<close>

definition blank_question :: "int \<Rightarrow> bool \<Rightarrow> question" where
  "blank_question i solved =
     \<lparr>qid = i, title = None, url = None, topic = None, tags = [], difficulty = None,
      companies = [], task_text = None, task_html = None, hint = None, solution = None,
      answer = None, is_solved = solved, attempts = (if solved then 1 else 0),
      avg_time_seconds = None\<rparr>"

definition q_easy :: question where
  "q_easy = (blank_question 1 False)\<lparr>title := Some ''Dice'', difficulty := Some ''easy'',
     topic := Some ''prob'', tags := [''coins''], task_text := Some ''Two rolls''\<rparr>"

definition q_hard :: question where
  "q_hard = (blank_question 2 True)\<lparr>title := Some ''Markov'', difficulty := Some ''hard'',
     topic := Some ''chains'', tags := [''coins'', ''limits'']\<rparr>"

definition q_easy_solved :: question where
  "q_easy_solved = q_easy\<lparr>is_solved := True, attempts := 1\<rparr>"

text \<open>Question 1 again, as a refetch may deliver it: same id, other content.\<close>

definition q_other :: question where
  "q_other = (blank_question 1 False)\<lparr>title := Some ''Dice (edited)''\<rparr>"

definition q_split :: question where
  "q_split = (blank_question 4 False)\<lparr>title := Some ''Bite'', task_text := Some ''two''\<rparr>"

definition catalog_A :: "question list" where
  "catalog_A = [q_easy, q_hard]"

definition all_solved_catalog :: "question list" where
  "all_solved_catalog = [q_easy_solved, q_hard]"

definition no_stats :: stats where
  "no_stats = \<lparr>total_questions = 2, solved_questions = 2, stats_avg_time_seconds = None,
     solved_by_difficulty = [], daily_solved = None, solved_by_topic = None,
     solved_by_company = None\<rparr>"

text \<open>The initial values of the \<^verbatim>\<open>useState\<close> cells.\<close>

definition initial_state :: app_state where
  "initial_state =
     \<lparr>questions = [], stats_cell = None, selectedQuestion = None, view = ViewQuestions,
      startTime = None, showHint = False, showSolution = False, showAnswer = False,
      infoMessage = None, trainingQuestion = None, trainingModeRunning = False,
      trainingStartTime = None, trainingElapsedSec = 0, trainingShowHint = False,
      trainingShowSolution = False, trainingShowAnswer = False, trainingInfoMessage = None,
      recentSolvedId = None\<rparr>"

text \<open>The detail view on an open question, with the hint shown.\<close>

definition detail_state :: "question \<Rightarrow> app_state" where
  "detail_state q =
     initial_state\<lparr>questions := catalog_A, selectedQuestion := Some q, startTime := Some 5000,
       showHint := True\<rparr>"

text \<open>A running training session on a question, with the hint shown.\<close>

definition training_state :: "question \<Rightarrow> app_state" where
  "training_state q =
     initial_state\<lparr>questions := catalog_A, view := ViewTraining, trainingQuestion := Some q,
       trainingModeRunning := True, trainingStartTime := Some 5000, trainingElapsedSec := 7,
       trainingShowHint := True\<rparr>"

text \<open>The same two views entered without a start time.\<close>

definition fresh_detail :: app_state where
  "fresh_detail = initial_state\<lparr>questions := catalog_A, selectedQuestion := Some q_hard\<rparr>"

definition fresh_training :: app_state where
  "fresh_training = initial_state\<lparr>questions := catalog_A, trainingQuestion := Some q_easy,
     trainingModeRunning := True\<rparr>"

text \<open>No training session yet, with reveal flags left over from an earlier one.\<close>

definition idle_state :: app_state where
  "idle_state = initial_state\<lparr>questions := catalog_A, trainingShowHint := True,
     trainingShowAnswer := True\<rparr>"

text \<open>
  Answers of the service: everything succeeds and the catalog comes back with question 1
  solved; the submission is rejected; the submission succeeds and the catalog refresh
  fails.
\<close>

definition env_ok :: env where
  "env_ok =
     \<lparr>now_start = 50000, now_end = 50400, updateProgress_result = Inr (),
      fetchQuestions_result = Inr [q_easy_solved, q_hard], fetchStats_result = Inr no_stats,
      random_draw = 3 / 4\<rparr>"

definition env_rejected :: env where
  "env_rejected = env_ok\<lparr>updateProgress_result := Inl ''offline''\<rparr>"

definition env_refresh_failed :: env where
  "env_refresh_failed = env_ok\<lparr>fetchQuestions_result := Inl ''offline''\<rparr>"

text \<open>A later click, and a click at which the clock reads less than the start time.\<close>

definition env_later :: env where
  "env_later = env_ok\<lparr>now_start := 60000, now_end := 60300\<rparr>"

definition env_clock_back :: env where
  "env_clock_back = env_ok\<lparr>now_start := 3000, now_end := 3400\<rparr>"

text \<open>Filter criteria.\<close>

definition only_easy :: filters where
  "only_easy = defaultFilters\<lparr>f_difficulty := ''easy''\<rparr>"

definition easy_unsolved :: filters where
  "easy_unsolved = only_easy\<lparr>f_onlyUnsolved := True, f_search := ''DICE''\<rparr>"

definition two_tags :: filters where
  "two_tags = defaultFilters\<lparr>f_tags := [''coins'', ''limits'']\<rparr>"

definition two_topics :: filters where
  "two_topics = defaultFilters\<lparr>f_topics := [''prob'', ''chains'']\<rparr>"

definition search_space :: filters where
  "search_space = defaultFilters\<lparr>f_search := '' ''\<rparr>"

definition search_ET :: filters where
  "search_ET = defaultFilters\<lparr>f_search := ''ET''\<rparr>"

section \<open>Auxiliary facts\<close>

subsection \<open>JavaScript primitives\<close>

lemma includes_str_sublist: "includes_str h s = sublist s h"
  by (induction h) (auto simp: sublist_Cons_right)

lemma Math_round_div1000: "Math_round (real_of_int d / 1000) = (d + 500) div 1000"
proof -
  have "real_of_int d / 1000 + 1 / 2 = real_of_int (d + 500) / real_of_int 1000"
    by simp
  then show ?thesis
    unfolding Math_round_def by (simp only: floor_divide_of_int_eq)
qed

lemma Math_floor_div1000: "Math_floor (real_of_int d / 1000) = d div 1000"
proof -
  have "real_of_int d / 1000 = real_of_int d / real_of_int 1000" by simp
  then show ?thesis
    unfolding Math_floor_def by (simp only: floor_divide_of_int_eq)
qed

subsection \<open>Rounding to a double\<close>

lemma exp_up_bounds:
  "1 \<le> x \<Longrightarrow> x < 2 ^ Suc k \<Longrightarrow>
   0 \<le> exp_up k x \<and> exp_up k x \<le> int k \<and> 2 powi (exp_up k x) \<le> x \<and> x < 2 powi (exp_up k x + 1)"
proof (induction k arbitrary: x)
  case 0
  then show ?case by simp
next
  case (Suc k)
  show ?case
  proof (cases "x < 2")
    case True
    with Suc.prems show ?thesis by simp
  next
    case False
    then have h: "1 \<le> x / 2" "x / 2 < 2 ^ Suc k" using Suc.prems by simp_all
    from Suc.IH[OF h] have ih: "0 \<le> exp_up k (x / 2)" "exp_up k (x / 2) \<le> int k"
      "2 powi (exp_up k (x / 2)) \<le> x / 2" "x / 2 < 2 powi (exp_up k (x / 2) + 1)" by simp_all
    have a: "(2::real) powi (exp_up k (x / 2) + 1) = 2 * 2 powi (exp_up k (x / 2))"
      by (simp add: power_int_add)
    have b: "(2::real) powi (exp_up k (x / 2) + 1 + 1) = 2 * 2 powi (exp_up k (x / 2) + 1)"
      by (simp add: power_int_add)
    from False ih a b show ?thesis by simp
  qed
qed

lemma exp_down_bounds:
  "- int k \<le> exp_down k x \<and> exp_down k x \<le> 0 \<and>
   (x < 1 \<longrightarrow> 0 < k \<longrightarrow> exp_down k x \<le> - 1 \<and> x < 2 powi (exp_down k x + 1)) \<and>
   (x < 1 \<longrightarrow> 2 powi (- int k) \<le> x \<longrightarrow> 2 powi (exp_down k x) \<le> x)"
proof (induction k arbitrary: x)
  case 0
  then show ?case by simp
next
  case (Suc k)
  show ?case
  proof (cases "1 \<le> x")
    case True
    then show ?thesis by simp
  next
    case False
    note ih = Suc.IH[of "2 * x"]
    let ?e = "exp_down k (2 * x)"
    have e: "exp_down (Suc k) x = ?e - 1" using False by simp
    have r1: "- int (Suc k) \<le> ?e - 1" "?e - 1 \<le> - 1" using ih by simp_all
    have up: "x < 2 powi (?e - 1 + 1)"
    proof (cases "2 * x < 1 \<and> 0 < k")
      case True
      with ih have "2 * x < 2 powi (?e + 1)" by simp
      also have "(2::real) powi (?e + 1) = 2 * 2 powi ?e" by (simp add: power_int_add)
      finally show ?thesis by simp
    next
      case f: False
      have "?e = 0"
      proof (cases "0 < k")
        case True
        with f have "1 \<le> 2 * x" by simp
        then show ?thesis by (cases k) simp_all
      next
        case False
        then show ?thesis by simp
      qed
      with False show ?thesis by simp
    qed
    have low: "2 powi (?e - 1) \<le> x" if l: "2 powi (- int (Suc k)) \<le> x"
    proof -
      have "(2::real) powi (- 1 - int k) = 2 powi (- 1) * 2 powi (- int k)"
        using power_int_add[of "2::real" "- 1" "- int k"] by simp
      then have "(2::real) powi (- int k) = 2 * 2 powi (- int (Suc k))"
        by simp
      with l have l2: "2 powi (- int k) \<le> 2 * x" by simp
      have "2 powi ?e \<le> 2 * x"
      proof (cases "2 * x < 1")
        case True
        with ih l2 show ?thesis by simp
      next
        case False
        then have "?e = 0" by (cases k) simp_all
        with False show ?thesis by simp
      qed
      moreover have "(2::real) powi ?e = 2 * 2 powi (?e - 1)"
        by (simp add: power_int_diff)
      ultimately show ?thesis by simp
    qed
    from e r1 up low False show ?thesis by simp
  qed
qed


lemma expo_ge1: "1 \<le> x \<Longrightarrow> x < 2 ^ 1024 \<Longrightarrow>
  0 \<le> expo x \<and> expo x \<le> 1023 \<and> 2 powi (expo x) \<le> x \<and> x < 2 powi (expo x + 1)"
  using exp_up_bounds[of x 1023] by (simp add: expo_def)

lemma expo_lt1: "x < 1 \<Longrightarrow>
  - 1022 \<le> expo x \<and> expo x \<le> - 1 \<and> x < 2 powi (expo x + 1) \<and>
  (2 powi (- 1022) \<le> x \<longrightarrow> 2 powi (expo x) \<le> x)"
  using exp_down_bounds[of 1022 x] by (simp add: expo_def)

lemma ulp_pos: "0 < ulp x"
  by (simp add: ulp_def)

lemma rhe_bounds: "real_of_int (round_half_even y) \<le> y + 1 / 2 \<and> y - 1 / 2 \<le> real_of_int (round_half_even y)"
  unfolding round_half_even_def Let_def by (auto; linarith)

lemma rhe_ge_int: "real_of_int m \<le> y \<Longrightarrow> m \<le> round_half_even y"
proof -
  assume "real_of_int m \<le> y"
  then have "m \<le> \<lfloor>y\<rfloor>" by (simp add: le_floor_iff)
  then show ?thesis unfolding round_half_even_def Let_def by auto
qed

lemma rhe_le_int: "y \<le> real_of_int m \<Longrightarrow> round_half_even y \<le> m"
proof -
  assume a: "y \<le> real_of_int m"
  show ?thesis
  proof (cases "y = real_of_int m")
    case True
    then show ?thesis by (simp add: round_half_even_def)
  next
    case False
    with a have "y < real_of_int m" by simp
    then have "\<lfloor>y\<rfloor> < m" by (simp add: floor_less_iff)
    then show ?thesis unfolding round_half_even_def Let_def by auto
  qed
qed

lemma rhe_lt_int: "y < real_of_int m - 1 / 2 \<Longrightarrow> round_half_even y < m"
proof -
  assume a: "y < real_of_int m - 1 / 2"
  from rhe_bounds[of y] have "real_of_int (round_half_even y) \<le> y + 1 / 2" by simp
  with a have "real_of_int (round_half_even y) < real_of_int m" by linarith
  then show ?thesis by simp
qed

lemma rhe_int: "round_half_even (real_of_int m) = m"
  by (simp add: round_half_even_def)

text \<open>
  An integer is a whole number of units in the last place of every value below \<open>2^53\<close>.
\<close>

lemma int_over_ulp:
  assumes "expo x \<le> 52"
  shows "real_of_int i / ulp x = real_of_int (i * 2 ^ nat (52 - expo x))"
proof -
  have "ulp x = 2 powi (- (52 - expo x))" by (simp add: ulp_def)
  also have "\<dots> = 1 / 2 powi (52 - expo x)" by (simp only: power_int_minus_divide)
  also have "(2::real) powi (52 - expo x) = 2 ^ nat (52 - expo x)"
    using assms by (simp add: power_int_def)
  finally show ?thesis by simp
qed


lemma to_double_nonneg: "0 \<le> x \<Longrightarrow> 0 \<le> to_double x"
proof -
  assume "0 \<le> x"
  then have "real_of_int 0 \<le> x / ulp x" using ulp_pos[of x] by simp
  from rhe_ge_int[OF this] show ?thesis
    using ulp_pos[of x] by (simp add: to_double_def)
qed

lemma expo_le_52: "x < 2 ^ 53 \<Longrightarrow> expo x \<le> 52"
proof (cases "1 \<le> x")
  case True
  assume b: "x < 2 ^ 53"
  then have "x < 2 ^ 1024"
    by (rule less_le_trans) (rule power_increasing, simp_all)
  from expo_ge1[OF True this] b have "(2::real) powi (expo x) < 2 powi 53" by simp
  then have "expo x < 53"
    by (metis linorder_not_less one_le_numeral power_int_increasing)
  then show ?thesis by simp
next
  case False
  then have "x < 1" by simp
  from expo_lt1[OF this] show ?thesis by simp
qed

lemma to_double_ge_int:
  assumes "x < 2 ^ 53" and "real_of_int i \<le> x"
  shows "real_of_int i \<le> to_double x"
proof -
  note e = expo_le_52[OF assms(1)]
  from assms(2) ulp_pos[of x] have "real_of_int i / ulp x \<le> x / ulp x"
    by (simp add: divide_right_mono)
  then have "i * 2 ^ nat (52 - expo x) \<le> round_half_even (x / ulp x)"
    unfolding int_over_ulp[OF e] by (rule rhe_ge_int)
  then have "real_of_int (i * 2 ^ nat (52 - expo x)) \<le> real_of_int (round_half_even (x / ulp x))"
    by (simp only: of_int_le_iff)
  then have "real_of_int i / ulp x \<le> real_of_int (round_half_even (x / ulp x))"
    by (simp only: int_over_ulp[OF e])
  then show ?thesis
    using ulp_pos[of x] by (simp add: to_double_def pos_divide_le_eq)
qed

lemma to_double_le_int:
  assumes "x < 2 ^ 53" and "x \<le> real_of_int i"
  shows "to_double x \<le> real_of_int i"
proof -
  note e = expo_le_52[OF assms(1)]
  from assms(2) ulp_pos[of x] have "x / ulp x \<le> real_of_int i / ulp x"
    by (simp add: divide_right_mono)
  then have "round_half_even (x / ulp x) \<le> i * 2 ^ nat (52 - expo x)"
    unfolding int_over_ulp[OF e] by (rule rhe_le_int)
  then have "real_of_int (round_half_even (x / ulp x)) \<le> real_of_int (i * 2 ^ nat (52 - expo x))"
    by (simp only: of_int_le_iff)
  then have "real_of_int (round_half_even (x / ulp x)) \<le> real_of_int i / ulp x"
    by (simp only: int_over_ulp[OF e])
  then show ?thesis
    using ulp_pos[of x] by (simp add: to_double_def pos_le_divide_eq)
qed

lemma to_double_half_ulp:
  "to_double x \<le> x + ulp x / 2 \<and> x - ulp x / 2 \<le> to_double x"
proof -
  from rhe_bounds[of "x / ulp x"]
  have "real_of_int (round_half_even (x / ulp x)) * ulp x \<le> (x / ulp x + 1 / 2) * ulp x"
    and "(x / ulp x - 1 / 2) * ulp x \<le> real_of_int (round_half_even (x / ulp x)) * ulp x"
    using ulp_pos[of x] by (simp_all add: mult_right_mono)
  then show ?thesis
    using ulp_pos[of x] by (simp add: to_double_def algebra_simps)
qed

lemma ulp_below_1: "x < 1 \<Longrightarrow> ulp x \<le> 1 / 2 ^ 53"
proof -
  assume "x < 1"
  from expo_lt1[OF this] have "expo x - 52 \<le> - 53" by simp
  then have "(2::real) powi (expo x - 52) \<le> 2 powi (- 53)"
    by (intro power_int_increasing) simp_all
  then show ?thesis by (simp add: ulp_def power_int_minus_divide)
qed

lemma to_double_small: "x < 1 / 2 \<Longrightarrow> to_double x < 1"
proof -
  assume a: "x < 1 / 2"
  then have "x < 1" by simp
  from ulp_below_1[OF this] to_double_half_ulp[of x] a show ?thesis by simp
qed

lemma ulp_normal: 
  assumes "2 powi (- 1022) \<le> x" and "x < 2 ^ 1024"
  shows "ulp x \<le> x / 2 ^ 52"
proof -
  have "2 powi (expo x) \<le> x"
  proof (cases "1 \<le> x")
    case True
    from expo_ge1[OF True assms(2)] show ?thesis by simp
  next
    case False
    then have "x < 1" by simp
    from expo_lt1[OF this] assms(1) show ?thesis by simp
  qed
  moreover have "ulp x = 2 powi (expo x) / 2 ^ 52"
    by (simp add: ulp_def power_int_diff)
  ultimately show ?thesis by (simp add: divide_right_mono)
qed

lemma to_double_rel_upper:
  assumes "2 powi (- 1022) \<le> x" and "x < 2 ^ 1024"
  shows "to_double x \<le> x * (1 + 1 / 2 ^ 53)"
proof -
  from ulp_normal[OF assms] have "ulp x / 2 \<le> x / 2 ^ 53" by simp
  with to_double_half_ulp[of x] show ?thesis by (simp add: algebra_simps)
qed

lemma frac_below_1:
  assumes "0 < p" and "real_of_int j / real_of_int p < 1"
  shows "real_of_int j / real_of_int p \<le> 1 - 1 / real_of_int p"
proof -
  from assms have "real_of_int j < real_of_int p" by (simp add: pos_divide_less_eq)
  then have "j \<le> p - 1" by simp
  then have "real_of_int j \<le> real_of_int (p - 1)" by (simp only: of_int_le_iff)
  then have "real_of_int j \<le> real_of_int p - 1" by simp
  then have "real_of_int j / real_of_int p \<le> (real_of_int p - 1) / real_of_int p"
    using assms(1) by (simp add: divide_right_mono)
  also have "\<dots> = 1 - 1 / real_of_int p"
    using assms(1) by (simp add: diff_divide_distrib)
  finally show ?thesis .
qed

lemma double_below_1:
  assumes "is_double r" and "r < 1"
  shows "r \<le> 1 - 1 / 2 ^ 53"
proof (cases "expo r = - 1")
  case True
  have p: "real_of_int (2 ^ 53) = 2 ^ 53" by simp
  from True have u: "ulp r = 1 / real_of_int (2 ^ 53)"
    unfolding p by (simp add: ulp_def power_int_minus_divide)
  let ?j = "round_half_even (r / ulp r)"
  from assms(1) have r: "r = real_of_int ?j / real_of_int (2 ^ 53)"
    unfolding is_double_def to_double_def by (simp only: u) simp
  have "(0::int) < 2 ^ 53" by simp
  from frac_below_1[OF this, of ?j] r assms(2)
  have "r \<le> 1 - 1 / real_of_int (2 ^ 53)" by simp
  then show ?thesis by (simp only: p)
next
  case False
  with expo_lt1[OF assms(2)] have e: "expo r + 1 \<le> - 1" and b: "r < 2 powi (expo r + 1)" by simp_all
  from e have "(2::real) powi (expo r + 1) \<le> 2 powi (- 1)"
    by (intro power_int_increasing) simp_all
  with b have "r < 1 / 2" by simp
  then show ?thesis by simp
qed

lemma product_below:
  assumes "is_double r" and "0 \<le> r" and "r < 1" and "0 < n" and "n < 2 ^ 53"
  shows "to_double (r * real n) < real n"
proof -
  let ?x = "r * real n"
  from assms have xn: "?x < real n" by simp
  from assms(5) have n53: "real n < 2 ^ 53"
    by (metis of_nat_less_iff of_nat_numeral of_nat_power)
  with xn have x53: "?x < 2 ^ 53" by simp
  note e = expo_le_52[OF x53]
  from double_below_1[OF assms(1,3)] assms(4)
  have "?x \<le> (1 - 1 / 2 ^ 53) * real n" by (simp add: mult_right_mono)
  then have gap: "real n / 2 ^ 53 \<le> real n - ?x" by (simp add: algebra_simps)
  have big: "2 powi (expo ?x) < real n"
  proof (cases "1 \<le> ?x")
    case True
    from x53 have "?x < 2 ^ 1024"
      by (rule less_le_trans) (rule power_increasing, simp_all)
    from expo_ge1[OF True this] xn show ?thesis by simp
  next
    case False
    then have "?x < 1" by simp
    from expo_lt1[OF this] have "expo ?x \<le> - 1" by simp
    then have "(2::real) powi (expo ?x) \<le> 2 powi (- 1)"
      by (intro power_int_increasing) simp_all
    moreover from assms(4) have "1 \<le> real n" by simp
    ultimately show ?thesis by simp
  qed
  have u: "ulp ?x = 2 powi (expo ?x) / 2 ^ 52" by (simp add: ulp_def power_int_diff)
  from big have "ulp ?x / 2 < real n / 2 ^ 53" by (simp add: u divide_strict_right_mono)
  with gap have "ulp ?x / 2 < real n - ?x" by simp
  then have "?x / ulp ?x < real n / ulp ?x - 1 / 2"
    using ulp_pos[of ?x] by (simp add: field_simps)
  then have "?x / ulp ?x < real_of_int (int n * 2 ^ nat (52 - expo ?x)) - 1 / 2"
    using int_over_ulp[OF e, of "int n"] by simp
  from rhe_lt_int[OF this]
  have "real_of_int (round_half_even (?x / ulp ?x)) < real_of_int (int n * 2 ^ nat (52 - expo ?x))"
    by (simp only: of_int_less_iff)
  then have "real_of_int (round_half_even (?x / ulp ?x)) < real n / ulp ?x"
    using int_over_ulp[OF e, of "int n"] by simp
  then show ?thesis
    using ulp_pos[of ?x] by (simp add: to_double_def pos_less_divide_eq)
qed

lemma binade_unique:
  assumes "2 powi a \<le> (x::real)" and "x < 2 powi (a + 1)"
    and "2 powi b \<le> x" and "x < 2 powi (b + 1)"
  shows "a = b"
proof (rule ccontr)
  assume "a \<noteq> b"
  then consider "a + 1 \<le> b" | "b + 1 \<le> a" by linarith
  then show False
  proof cases
    case 1
    then have "(2::real) powi (a + 1) \<le> 2 powi b" by (intro power_int_increasing) simp_all
    with assms show False by simp
  next
    case 2
    then have "(2::real) powi (b + 1) \<le> 2 powi a" by (intro power_int_increasing) simp_all
    with assms show False by simp
  qed
qed

lemma expo_eq:
  assumes "2 powi e \<le> x" and "x < 2 powi (e + 1)" and "- 1022 \<le> e" and "e \<le> 1023"
  shows "expo x = e"
proof (cases "1 \<le> x")
  case True
  from assms(4) have "(2::real) powi (e + 1) \<le> 2 powi 1024"
    by (intro power_int_increasing) simp_all
  with assms(2) have "x < 2 ^ 1024" by simp
  from expo_ge1[OF True this] assms(1,2) show ?thesis
    by (auto intro: binade_unique)
next
  case False
  then have x: "x < 1" by simp
  from assms(3) have "(2::real) powi (- 1022) \<le> 2 powi e"
    by (intro power_int_increasing) simp_all
  with assms(1) have "2 powi (- 1022) \<le> x" by simp
  with expo_lt1[OF x] assms(1,2) show ?thesis
    by (auto intro: binade_unique)
qed

text \<open>A whole number of units in the last place is a double.\<close>

lemma to_double_exact:
  assumes "expo x = e" and "x = real_of_int m * 2 powi (e - 52)"
  shows "to_double x = x"
proof -
  have "x / ulp x = real_of_int m" using assms by (simp add: ulp_def)
  then show ?thesis using assms by (simp add: to_double_def rhe_int ulp_def)
qed

subsection \<open>Filter\<close>

lemma keep_topics:
  "(\<not> truthy (topic q) \<or> \<not> List.member (f_topics f) (or_empty (topic q))) \<longleftrightarrow>
   \<not> (\<exists>t. topic q = Some t \<and> t \<noteq> [] \<and> t \<in> set (f_topics f))"
  by (cases "topic q") (auto simp: truthy_def or_empty_def)

lemma keep_all_dims: "keep lc f q \<longleftrightarrow> all_dims lc f q"
  unfolding keep_def all_dims_def dim_difficulty_def dim_topics_def dim_company_def
    dim_tags_def dim_unsolved_def dim_search_def includes_str_sublist haystack_def keep_topics
  by (auto simp: list_all_iff)

lemma filteredQuestions_all_dims: "filteredQuestions lc f qs = filter (all_dims lc f) qs"
  by (simp add: filteredQuestions_def keep_all_dims[abs_def])


text \<open>The topic picker never puts an empty label into the selection.\<close>

lemma uniqueTopics_nonempty: "[] \<notin> set (uniqueTopics qs)"
  by (auto simp: uniqueTopics_def truthy_def or_empty_def split: option.splits)

lemma toggle_topic_nonempty:
  "[] \<notin> set (f_topics f) \<Longrightarrow> t \<in> set (uniqueTopics qs) \<Longrightarrow>
   [] \<notin> set (f_topics (toggle_topic f t))"
  using uniqueTopics_nonempty[of qs] by (auto simp: toggle_topic_def)

subsection \<open>Handlers\<close>

lemma find_by_id_Some: "find_by_id qs i = Some u \<Longrightarrow> qid u = i \<and> u \<in> set qs"
  unfolding find_by_id_def by (auto simp: find_Some_iff)

lemma deltaSec_ge_1: "1 \<le> deltaSec start now"
  by (cases start) (simp_all add: deltaSec_def)

lemma deltaSec_None: "deltaSec None now = 60"
  by (simp add: deltaSec_def)

lemma deltaSec_Some: "deltaSec (Some st) now = max 1 ((now - st + 500) div 1000)"
  by (simp only: deltaSec_def option.case Math_round_div1000)

lemma deltaSec_nonpositive: "now \<le> st \<Longrightarrow> deltaSec (Some st) now = 1"
  unfolding deltaSec_Some by simp

lemma handleMarkSolved_noop:
  "selectedQuestion s = Some q \<Longrightarrow> is_solved q \<Longrightarrow>
   handleMarkSolved s True e = (s\<lparr>infoMessage := Some DetailAlreadySolved\<rparr>, [])"
  by (simp add: handleMarkSolved_def)

lemma handleTrainingMark_noop:
  "trainingQuestion s = Some q \<Longrightarrow> is_solved q \<Longrightarrow>
   handleTrainingMark s True e = (s\<lparr>trainingInfoMessage := Some TrainingAlreadySolved\<rparr>, [])"
  by (simp add: handleTrainingMark_def)

lemma handleMarkSolved_calls:
  "selectedQuestion s = Some q \<Longrightarrow> \<not> (solved \<and> is_solved q) \<Longrightarrow>
   snd (handleMarkSolved s solved e) =
     UpdateProgress (qid q) (deltaSec (startTime s) (now_start e)) solved #
     (case updateProgress_result e of
        Inl m \<Rightarrow> []
      | Inr u \<Rightarrow> FetchQuestions #
          (case fetchQuestions_result e of Inl m \<Rightarrow> [] | Inr qs \<Rightarrow> [FetchStats]))"
  by (auto simp: handleMarkSolved_def Let_def reloadQuestions_def reloadStats_def
      split: sum.splits)

lemma handleTrainingMark_calls:
  "trainingQuestion s = Some q \<Longrightarrow> \<not> (solved \<and> is_solved q) \<Longrightarrow>
   snd (handleTrainingMark s solved e) =
     UpdateProgress (qid q) (deltaSec (trainingStartTime s) (now_start e)) solved #
     (case updateProgress_result e of
        Inl m \<Rightarrow> []
      | Inr u \<Rightarrow> FetchQuestions #
          (case fetchQuestions_result e of Inl m \<Rightarrow> [] | Inr qs \<Rightarrow> [FetchStats]))"
  by (auto simp: handleTrainingMark_def Let_def reloadQuestions_def reloadStats_def
      split: sum.splits option.splits)

lemma handleMarkSolved_calls_cases:
  "snd (handleMarkSolved s solved e) = [] \<or>
   (\<exists>q rest. selectedQuestion s = Some q \<and> \<not> (solved \<and> is_solved q) \<and>
      snd (handleMarkSolved s solved e) =
        UpdateProgress (qid q) (deltaSec (startTime s) (now_start e)) solved # rest \<and>
      set rest \<subseteq> {FetchQuestions, FetchStats})"
proof (cases "selectedQuestion s")
  case None
  then show ?thesis by (simp add: handleMarkSolved_def)
next
  case (Some q)
  show ?thesis
  proof (cases "solved \<and> is_solved q")
    case True
    with Some show ?thesis by (simp add: handleMarkSolved_def)
  next
    case False
    from handleMarkSolved_calls[OF Some False, of e] Some False show ?thesis
      by (auto split: sum.splits)
  qed
qed

lemma handleTrainingMark_calls_cases:
  "snd (handleTrainingMark s solved e) = [] \<or>
   (\<exists>q rest. trainingQuestion s = Some q \<and> \<not> (solved \<and> is_solved q) \<and>
      snd (handleTrainingMark s solved e) =
        UpdateProgress (qid q) (deltaSec (trainingStartTime s) (now_start e)) solved # rest \<and>
      set rest \<subseteq> {FetchQuestions, FetchStats})"
proof (cases "trainingQuestion s")
  case None
  then show ?thesis by (simp add: handleTrainingMark_def)
next
  case (Some q)
  show ?thesis
  proof (cases "solved \<and> is_solved q")
    case True
    with Some show ?thesis by (simp add: handleTrainingMark_def)
  next
    case False
    from handleTrainingMark_calls[OF Some False, of e] Some False show ?thesis
      by (auto split: sum.splits)
  qed
qed

lemma handleMarkSolved_failure:
  "selectedQuestion s = Some q \<Longrightarrow> \<not> (solved \<and> is_solved q) \<Longrightarrow>
   updateProgress_result e = Inl msg \<Longrightarrow>
   handleMarkSolved s solved e =
     (s\<lparr>infoMessage := Some (SaveError msg)\<rparr>,
      [UpdateProgress (qid q) (deltaSec (startTime s) (now_start e)) solved])"
  by (auto simp: handleMarkSolved_def Let_def)

lemma handleTrainingMark_failure:
  "trainingQuestion s = Some q \<Longrightarrow> \<not> (solved \<and> is_solved q) \<Longrightarrow>
   updateProgress_result e = Inl msg \<Longrightarrow>
   handleTrainingMark s solved e =
     (s\<lparr>trainingInfoMessage := Some (SaveError msg)\<rparr>,
      [UpdateProgress (qid q) (deltaSec (trainingStartTime s) (now_start e)) solved])"
  by (auto simp: handleTrainingMark_def Let_def)

lemma handleMarkSolved_selected_after:
  assumes "selectedQuestion s = Some q" and "\<not> (solved \<and> is_solved q)"
    and "updateProgress_result e = Inr u" and "fetchQuestions_result e = Inr qs"
    and "find_by_id qs (qid q) = Some q'"
  shows "selectedQuestion (fst (handleMarkSolved s solved e)) = Some q'"
  using assms
  by (auto simp: handleMarkSolved_def Let_def reloadQuestions_def reloadStats_def refreshed_def
      split: sum.splits)

subsection \<open>Concrete evaluations\<close>

lemmas example_defs =
  only_easy_def easy_unsolved_def two_tags_def two_topics_def search_space_def search_ET_def
  q_split_def defaultFilters_def blank_question_def q_easy_def q_hard_def catalog_A_def

lemmas filter_defs =
  filteredQuestions_def keep_def haystack_def truthy_def or_empty_def

lemma lower_examples:
  "ascii_lower '' '' = '' ''" "ascii_lower ''ET'' = ''et''" "ascii_lower ''DICE'' = ''dice''"
  "ascii_lower ''Dice Two rolls'' = ''dice two rolls''"
  "ascii_lower ''Markov '' = ''markov ''"
  "ascii_lower ''Bite two'' = ''bite two''"
  "ascii_lower ''Bitetwo'' = ''bitetwo''"
  by code_simp+

lemma ascii_lower_char_space: "ascii_lower_char c = CHR '' '' \<longleftrightarrow> c = CHR '' ''"
proof
  assume a: "ascii_lower_char c = CHR '' ''"
  show "c = CHR '' ''"
  proof (cases "65 \<le> (of_char c :: nat) \<and> (of_char c :: nat) \<le> 90")
    case True
    with a have "char_of (of_char c + 32 :: nat) = CHR '' ''"
      by (simp add: ascii_lower_char_def Let_def)
    then have "(of_char (char_of (of_char c + 32 :: nat) :: char) :: nat) = of_char CHR '' ''"
      by simp
    with True show ?thesis by simp
  next
    case False
    with a show ?thesis by (auto simp: ascii_lower_char_def Let_def)
  qed
next
  assume "c = CHR '' ''"
  then show "ascii_lower_char c = CHR '' ''" by (simp add: ascii_lower_char_def)
qed

lemma ascii_lower_space: "ascii_lower s = '' '' \<longleftrightarrow> s = '' ''"
  unfolding ascii_lower_def by (cases s) (auto simp: ascii_lower_char_space)

lemma ascii_lower_Nil: "ascii_lower s = [] \<longleftrightarrow> s = []"
  by (simp add: ascii_lower_def)

lemma lower_facts_ascii: "lower_facts ascii_lower"
  by (simp add: lower_facts_def ascii_lower_space ascii_lower_Nil)

section \<open>Filter engine: claims\<close>





lemma sublist_singleton: "sublist s [x] \<longleftrightarrow> s = [] \<or> s = [x]"
  by (cases s) (auto simp: sublist_Cons_right)

lemma blank_text:
  "\<not> truthy (title q) \<Longrightarrow> \<not> truthy (task_text q) \<Longrightarrow>
   or_empty (title q) @ '' '' @ or_empty (task_text q) = '' ''"
  by (cases "title q"; cases "task_text q") (simp_all add: truthy_def or_empty_def)

text \<open>
  Claim C6. Tags are conjunctive and topics are disjunctive: with tags \<open>{A, B}\<close> selected
  (two different tags), a question whose tags are \<open>{A}\<close> is not in the filtered list of
  any catalog; with topics \<open>{X, Y}\<close> selected, a question of the catalog whose topic is
  the label \<open>X\<close> is in the filtered list whenever it passes the other five dimensions.
  A label is a non-empty string: the picker offers only those (\<open>uniqueTopics_nonempty\<close>,
  \<open>toggle_topic_nonempty\<close>).
\<close>

theorem tags_all_topics_any:
  "(set (f_tags f) = {A, B} \<and> A \<noteq> B \<and> set (tags q) = {A} \<longrightarrow>
      q \<notin> set (filteredQuestions lc f qs)) \<and>
   (set (f_topics f) = {X, Y} \<and> X \<noteq> [] \<and> topic q = Some X \<and> q \<in> set qs \<and>
    dim_difficulty f q \<and> dim_company f q \<and> dim_tags f q \<and> dim_unsolved f q \<and>
    dim_search lc f q \<longrightarrow>
      q \<in> set (filteredQuestions lc f qs))"
proof -
  have tags_part: "q \<notin> set (filteredQuestions lc f qs)"
    if "set (f_tags f) = {A, B}" "A \<noteq> B" "set (tags q) = {A}"
  proof -
    from that have "\<not> dim_tags f q" by (auto simp: dim_tags_def)
    then show ?thesis by (simp add: filteredQuestions_all_dims all_dims_def)
  qed
  have topics_part: "q \<in> set (filteredQuestions lc f qs)"
    if "set (f_topics f) = {X, Y}" "X \<noteq> []" "topic q = Some X" "q \<in> set qs"
      "dim_difficulty f q" "dim_company f q" "dim_tags f q" "dim_unsolved f q"
      "dim_search lc f q"
  proof -
    from that(1-3) have "dim_topics f q" by (auto simp: dim_topics_def)
    with that show ?thesis by (simp add: filteredQuestions_all_dims all_dims_def)
  qed
  from tags_part topics_part show ?thesis by blast
qed

lemma filtered_examples2:
  "filteredQuestions ascii_lower two_tags catalog_A = [q_hard]"
  "filteredQuestions ascii_lower two_topics catalog_A = [q_easy, q_hard]"
  by (simp_all add: filter_defs example_defs lower_examples)

theorem tags_all_topics_any_witness:
  "set (f_tags two_tags) = {''coins'', ''limits''} \<and> set (tags q_easy) = {''coins''} \<and>
   q_easy \<notin> set (filteredQuestions ascii_lower two_tags catalog_A) \<and>
   set (f_topics two_topics) = {''prob'', ''chains''} \<and> topic q_easy = Some ''prob'' \<and>
   q_easy \<in> set (filteredQuestions ascii_lower two_topics catalog_A) \<and>
   filteredQuestions ascii_lower two_tags catalog_A = [q_hard]"
proof -
  have t: "set (f_tags two_tags) = {''coins'', ''limits''}" "''coins'' \<noteq> ''limits''"
    "set (tags q_easy) = {''coins''}"
    by (simp_all add: example_defs)
  have p: "set (f_topics two_topics) = {''prob'', ''chains''}" "''prob'' \<noteq> []"
    "topic q_easy = Some ''prob''" "q_easy \<in> set catalog_A"
    by (simp_all add: example_defs)
  have d: "dim_difficulty two_topics q_easy" "dim_company two_topics q_easy"
    "dim_tags two_topics q_easy" "dim_unsolved two_topics q_easy"
    "dim_search ascii_lower two_topics q_easy"
    by (simp_all add: dim_difficulty_def dim_company_def dim_tags_def dim_unsolved_def
        dim_search_def example_defs)
  from tags_all_topics_any[where f = two_tags and A = "''coins''" and B = "''limits''"
      and q = q_easy and qs = catalog_A and lc = ascii_lower] t
  have out: "q_easy \<notin> set (filteredQuestions ascii_lower two_tags catalog_A)" by blast
  from tags_all_topics_any[where f = two_topics and q = q_easy and qs = catalog_A
      and X = "''prob''" and Y = "''chains''" and lc = ascii_lower] p d
  have inn: "q_easy \<in> set (filteredQuestions ascii_lower two_topics catalog_A)" by blast
  from t p out inn show ?thesis by (simp add: filtered_examples2)
qed

text \<open>
  Claim C7, as amended. For a non-empty search string, a question passes the search
  dimension exactly when the lower-cased search string occurs in the lower-cased text
  made of the title, one space, and the plain-text body, in this order (a missing part
  counts as empty), both lower-cased by \<^verbatim>\<open>toLowerCase\<close>. A question with neither title
  nor body is matched against the lower-cased single space: it passes for the search
  string of one space, and, by the three facts of \<^verbatim>\<open>toLowerCase\<close> in \<open>lower_facts\<close>, for
  no other non-empty search string.
\<close>

theorem search_title_space_body:
  "f_search f \<noteq> [] \<longrightarrow>
     (q \<in> set (filteredQuestions lc f qs) \<longleftrightarrow>
        q \<in> set qs \<and> dim_difficulty f q \<and> dim_topics f q \<and> dim_company f q \<and>
        dim_tags f q \<and> dim_unsolved f q \<and>
        sublist (lc (f_search f)) (lc (or_empty (title q) @ '' '' @ or_empty (task_text q)))) \<and>
     (\<not> truthy (title q) \<and> \<not> truthy (task_text q) \<longrightarrow>
        (dim_search lc f q \<longleftrightarrow> sublist (lc (f_search f)) (lc '' '')) \<and>
        (f_search f = '' '' \<longrightarrow> dim_search lc f q) \<and>
        (lower_facts lc \<longrightarrow> (dim_search lc f q \<longleftrightarrow> f_search f = '' '')))"
proof
  assume ne: "f_search f \<noteq> []"
  have a: "q \<in> set (filteredQuestions lc f qs) \<longleftrightarrow>
        q \<in> set qs \<and> dim_difficulty f q \<and> dim_topics f q \<and> dim_company f q \<and>
        dim_tags f q \<and> dim_unsolved f q \<and>
        sublist (lc (f_search f)) (lc (or_empty (title q) @ '' '' @ or_empty (task_text q)))"
    using ne by (simp add: filteredQuestions_all_dims all_dims_def dim_search_def)
  have b: "(dim_search lc f q \<longleftrightarrow> sublist (lc (f_search f)) (lc '' '')) \<and>
        (f_search f = '' '' \<longrightarrow> dim_search lc f q) \<and>
        (lower_facts lc \<longrightarrow> (dim_search lc f q \<longleftrightarrow> f_search f = '' ''))"
    if blank: "\<not> truthy (title q)" "\<not> truthy (task_text q)"
  proof -
    have d: "dim_search lc f q \<longleftrightarrow> sublist (lc (f_search f)) (lc '' '')"
      unfolding dim_search_def blank_text[OF blank] using ne by simp
    have s: "dim_search lc f q" if "f_search f = '' ''"
      unfolding d that by simp
    have l: "dim_search lc f q \<longleftrightarrow> f_search f = '' ''" if lf: "lower_facts lc"
    proof -
      from lf have sp: "lc '' '' = '' ''" and em: "lc (f_search f) \<noteq> []"
        and on: "lc (f_search f) = '' '' \<Longrightarrow> f_search f = '' ''"
        using ne by (auto simp: lower_facts_def)
      show ?thesis
        unfolding d sp sublist_singleton using em on sp by auto
    qed
    from d s l show ?thesis by blast
  qed
  from a b show "(q \<in> set (filteredQuestions lc f qs) \<longleftrightarrow>
        q \<in> set qs \<and> dim_difficulty f q \<and> dim_topics f q \<and> dim_company f q \<and>
        dim_tags f q \<and> dim_unsolved f q \<and>
        sublist (lc (f_search f)) (lc (or_empty (title q) @ '' '' @ or_empty (task_text q)))) \<and>
     (\<not> truthy (title q) \<and> \<not> truthy (task_text q) \<longrightarrow>
        (dim_search lc f q \<longleftrightarrow> sublist (lc (f_search f)) (lc '' '')) \<and>
        (f_search f = '' '' \<longrightarrow> dim_search lc f q) \<and>
        (lower_facts lc \<longrightarrow> (dim_search lc f q \<longleftrightarrow> f_search f = '' '')))"
    by blast
qed

lemma filtered_examples3:
  "filteredQuestions ascii_lower search_space [blank_question 1 False] = [blank_question 1 False]"
  "filteredQuestions ascii_lower search_ET [q_split] = []"
  "filteredQuestions ascii_lower easy_unsolved catalog_A = [q_easy]"
  by (simp_all add: filter_defs example_defs lower_examples)

text \<open>
  The question with neither title nor body passes the search string of one space
  whatever the lower-casing function is: both sides are the lower-cased space.
\<close>

lemma blank_question_matches_space:
  "blank_question i b \<in> set (filteredQuestions lc search_space [blank_question i b])"
  by (simp add: filter_defs includes_str_sublist search_space_def defaultFilters_def
      blank_question_def)

text \<open>
  Claim C7 as stated fails: the search string of one space is not empty and matches the
  question that has neither title nor body; and the search \<open>ET\<close> occurs in the
  concatenation of the title \<open>Bite\<close> and the body \<open>two\<close>, yet the question is filtered
  out, because the searched text is \<open>bite two\<close>. All text here is ASCII.
\<close>

theorem search_blank_question_counterexample:
  "f_search search_space \<noteq> [] \<and>
   title (blank_question 1 False) = None \<and> task_text (blank_question 1 False) = None \<and>
   blank_question 1 False \<in>
     set (filteredQuestions ascii_lower search_space [blank_question 1 False]) \<and>
   title q_split = Some ''Bite'' \<and> task_text q_split = Some ''two'' \<and>
   sublist (ascii_lower ''ET'') (ascii_lower (''Bite'' @ ''two'')) \<and>
   q_split \<notin> set (filteredQuestions ascii_lower search_ET [q_split])"
proof -
  have "sublist ''et'' (''bit'' @ ''et'' @ ''wo'')"
    by (rule sublist_appendI)
  then have "sublist (ascii_lower ''ET'') (ascii_lower (''Bite'' @ ''two''))"
    by (simp add: lower_examples)
  then show ?thesis
    by (simp add: filtered_examples3) (simp add: example_defs)
qed

theorem search_title_space_body_witness:
  "f_search easy_unsolved \<noteq> [] \<and>
   q_easy \<in> set (filteredQuestions ascii_lower easy_unsolved catalog_A) \<and>
   sublist (ascii_lower ''DICE'') (ascii_lower (''Dice'' @ '' '' @ ''Two rolls'')) \<and>
   \<not> truthy (title (blank_question 1 False)) \<and>
   lower_facts ascii_lower \<and>
   dim_search ascii_lower search_space (blank_question 1 False) \<and>
   \<not> dim_search ascii_lower search_ET (blank_question 1 False)"
proof -
  have ne: "f_search easy_unsolved \<noteq> []" "f_search search_space \<noteq> []" "f_search search_ET \<noteq> []"
    by (simp_all add: example_defs)
  have blank: "\<not> truthy (title (blank_question 1 False))"
    "\<not> truthy (task_text (blank_question 1 False))"
    by (simp_all add: truthy_def blank_question_def)
  have fs: "f_search search_space = '' ''" "f_search search_ET \<noteq> '' ''"
    by (simp_all add: example_defs)
  have mem: "q_easy \<in> set (filteredQuestions ascii_lower easy_unsolved catalog_A)"
    by (simp add: filtered_examples3)
  from search_title_space_body[where f = easy_unsolved and q = q_easy and qs = catalog_A
      and lc = ascii_lower] ne(1) mem
  have "sublist (ascii_lower (f_search easy_unsolved))
          (ascii_lower (or_empty (title q_easy) @ '' '' @ or_empty (task_text q_easy)))"
    by blast
  then have s: "sublist (ascii_lower ''DICE'') (ascii_lower (''Dice'' @ '' '' @ ''Two rolls''))"
    by (simp add: example_defs or_empty_def)
  from search_title_space_body[where f = search_space and q = "blank_question 1 False"
      and qs = "[]" and lc = ascii_lower] ne(2) blank fs(1)
  have y: "dim_search ascii_lower search_space (blank_question 1 False)" by blast
  from search_title_space_body[where f = search_ET and q = "blank_question 1 False"
      and qs = "[]" and lc = ascii_lower] ne(3) blank fs(2) lower_facts_ascii
  have n: "\<not> dim_search ascii_lower search_ET (blank_question 1 False)" by blast
  from ne(1) mem s blank(1) y n lower_facts_ascii show ?thesis by blast
qed

section \<open>Marking a question: claims\<close>

lemmas state_defs =
  detail_state_def training_state_def fresh_detail_def fresh_training_def initial_state_def
  env_ok_def env_rejected_def env_refresh_failed_def env_later_def env_clock_back_def
  q_easy_solved_def

lemma deltaSec_examples:
  "deltaSec (Some 5000) 50000 = 45" "deltaSec None 50000 = 60" "deltaSec (Some 5000) 3000 = 1"
  "deltaSec (Some 5000) 60000 = 55" "deltaSec (Some 50400) 60000 = 10"
  by (simp_all add: deltaSec_Some deltaSec_None)

lemma mark_solved_twice_noop_second:
  assumes "selectedQuestion s = Some q" and "\<not> is_solved q"
    and "updateProgress_result e1 = Inr u" and "fetchQuestions_result e1 = Inr qs"
    and "find_by_id qs (qid q) = Some q'" and "is_solved q'"
  shows "mark_solved_twice s e1 e2 =
     ((fst (handleMarkSolved s True e1))\<lparr>infoMessage := Some DetailAlreadySolved\<rparr>,
      snd (handleMarkSolved s True e1))"
proof -
  from assms(2) have ns: "\<not> (True \<and> is_solved q)" by simp
  from handleMarkSolved_selected_after[OF assms(1) ns assms(3,4,5)]
  have sel: "selectedQuestion (fst (handleMarkSolved s True e1)) = Some q'" .
  from handleMarkSolved_noop[OF sel assms(6)]
  show ?thesis
    by (simp add: mark_solved_twice_def Let_def)
qed

text \<open>
  Claim C1, as amended. A mark-solved call (detail view or training) on a current
  question that is already solved only sets the informational message: the handler
  returns the state it started from with that message, and sends nothing to the
  service; so nothing is submitted, the session does not advance, and start time,
  reveal flags and current question stay. Called twice in the detail view on such a
  question, nothing is sent at all. Called twice in the detail view on an unsolved
  question, when the first call's submission and catalog refresh succeed and the
  refreshed catalog lists the question as solved, the second call is the informational
  no-op, and the two calls together send exactly one submission.
\<close>

theorem already_solved_noop:
  "(selectedQuestion s = Some q \<and> is_solved q \<longrightarrow>
      handleMarkSolved s True e = (s\<lparr>infoMessage := Some DetailAlreadySolved\<rparr>, []) \<and>
      snd (mark_solved_twice s e e2) = []) \<and>
   (trainingQuestion s = Some q \<and> is_solved q \<longrightarrow>
      handleTrainingMark s True e =
        (s\<lparr>trainingInfoMessage := Some TrainingAlreadySolved\<rparr>, [])) \<and>
   (selectedQuestion s = Some q \<and> \<not> is_solved q \<and> updateProgress_result e = Inr u \<and>
    fetchQuestions_result e = Inr qs \<and> find_by_id qs (qid q) = Some q' \<and> is_solved q' \<longrightarrow>
      submissions (snd (mark_solved_twice s e e2)) =
        [UpdateProgress (qid q) (deltaSec (startTime s) (now_start e)) True] \<and>
      snd (mark_solved_twice s e e2) = snd (handleMarkSolved s True e) \<and>
      infoMessage (fst (mark_solved_twice s e e2)) = Some DetailAlreadySolved)"
proof -
  have detail: "handleMarkSolved s True e = (s\<lparr>infoMessage := Some DetailAlreadySolved\<rparr>, []) \<and>
      snd (mark_solved_twice s e e2) = []"
    if h: "selectedQuestion s = Some q" "is_solved q"
  proof -
    note first = handleMarkSolved_noop[OF h, of e]
    have "selectedQuestion (s\<lparr>infoMessage := Some DetailAlreadySolved\<rparr>) = Some q"
      using h(1) by simp
    from handleMarkSolved_noop[OF this h(2), of e2] first show ?thesis
      by (simp add: mark_solved_twice_def Let_def)
  qed
  have training: "handleTrainingMark s True e =
        (s\<lparr>trainingInfoMessage := Some TrainingAlreadySolved\<rparr>, [])"
    if "trainingQuestion s = Some q" "is_solved q"
    using that by (rule handleTrainingMark_noop)
  have twice: "submissions (snd (mark_solved_twice s e e2)) =
        [UpdateProgress (qid q) (deltaSec (startTime s) (now_start e)) True] \<and>
      snd (mark_solved_twice s e e2) = snd (handleMarkSolved s True e) \<and>
      infoMessage (fst (mark_solved_twice s e e2)) = Some DetailAlreadySolved"
    if h: "selectedQuestion s = Some q" "\<not> is_solved q" "updateProgress_result e = Inr u"
      "fetchQuestions_result e = Inr qs" "find_by_id qs (qid q) = Some q'" "is_solved q'"
  proof -
    from h(2) have ns: "\<not> (True \<and> is_solved q)" by simp
    have calls: "submissions (snd (handleMarkSolved s True e)) =
        [UpdateProgress (qid q) (deltaSec (startTime s) (now_start e)) True]"
      unfolding handleMarkSolved_calls[OF h(1) ns] using h(3,4)
      by (simp add: submissions_def is_submission_def)
    from mark_solved_twice_noop_second[OF h, of e2] calls show ?thesis by simp
  qed
  from detail training twice show ?thesis by blast
qed

lemma detail_after_ok:
  "selectedQuestion (fst (handleMarkSolved (detail_state q_easy) True env_ok)) = Some q_easy_solved"
proof -
  have "find_by_id [q_easy_solved, q_hard] (qid q_easy) = Some q_easy_solved"
    by (simp add: find_by_id_def q_easy_solved_def q_easy_def blank_question_def)
  then show ?thesis
    by (intro handleMarkSolved_selected_after[where q = q_easy and u = "()"])
      (simp_all add: state_defs q_easy_def blank_question_def)
qed

theorem already_solved_noop_witness:
  "selectedQuestion (detail_state q_hard) = Some q_hard \<and> is_solved q_hard \<and>
   handleMarkSolved (detail_state q_hard) True env_ok =
     ((detail_state q_hard)\<lparr>infoMessage := Some DetailAlreadySolved\<rparr>, []) \<and>
   handleTrainingMark (training_state q_hard) True env_ok =
     ((training_state q_hard)\<lparr>trainingInfoMessage := Some TrainingAlreadySolved\<rparr>, []) \<and>
   selectedQuestion (detail_state q_easy) = Some q_easy \<and> \<not> is_solved q_easy \<and>
   submissions (snd (mark_solved_twice (detail_state q_easy) env_ok env_later)) =
     [UpdateProgress 1 45 True]"
proof -
  have hard: "selectedQuestion (detail_state q_hard) = Some q_hard"
    "trainingQuestion (training_state q_hard) = Some q_hard" "is_solved q_hard"
    by (simp_all add: state_defs q_hard_def blank_question_def)
  have easy: "selectedQuestion (detail_state q_easy) = Some q_easy" "\<not> is_solved q_easy"
    "updateProgress_result env_ok = Inr ()"
    "fetchQuestions_result env_ok = Inr [q_easy_solved, q_hard]"
    "find_by_id [q_easy_solved, q_hard] (qid q_easy) = Some q_easy_solved"
    "is_solved q_easy_solved"
    by (simp_all add: state_defs find_by_id_def q_easy_def blank_question_def)
  have d: "deltaSec (startTime (detail_state q_easy)) (now_start env_ok) = 45" "qid q_easy = 1"
    by (simp_all add: state_defs deltaSec_examples q_easy_def blank_question_def)
  from already_solved_noop[of "detail_state q_hard" q_hard env_ok env_ok] hard
  have a: "handleMarkSolved (detail_state q_hard) True env_ok =
     ((detail_state q_hard)\<lparr>infoMessage := Some DetailAlreadySolved\<rparr>, [])" by blast
  from already_solved_noop[of "training_state q_hard" q_hard env_ok env_ok] hard
  have b: "handleTrainingMark (training_state q_hard) True env_ok =
     ((training_state q_hard)\<lparr>trainingInfoMessage := Some TrainingAlreadySolved\<rparr>, [])" by blast
  from already_solved_noop[of "detail_state q_easy" q_easy env_ok env_later "()"
      "[q_easy_solved, q_hard]" q_easy_solved] easy
  have c: "submissions (snd (mark_solved_twice (detail_state q_easy) env_ok env_later)) =
     [UpdateProgress (qid q_easy) (deltaSec (startTime (detail_state q_easy)) (now_start env_ok)) True]"
    by blast
  from hard easy a b c d show ?thesis by simp
qed

lemma handleMarkSolved_refresh_failed:
  "handleMarkSolved (detail_state q_easy) True env_refresh_failed =
     ((detail_state q_easy)\<lparr>infoMessage := Some (SaveError ''offline'')\<rparr>,
      [UpdateProgress 1 45 True, FetchQuestions])"
  by (simp add: handleMarkSolved_def reloadQuestions_def deltaSec_examples state_defs
      q_easy_def blank_question_def)

lemma handleMarkSolved_rejected:
  "handleMarkSolved (detail_state q_easy) True env_rejected =
     ((detail_state q_easy)\<lparr>infoMessage := Some (SaveError ''offline'')\<rparr>,
      [UpdateProgress 1 45 True])"
  by (simp add: handleMarkSolved_def deltaSec_examples state_defs
      q_easy_def blank_question_def)

lemma handleMarkSolved_after_error:
  "snd (handleMarkSolved ((detail_state q_easy)\<lparr>infoMessage := Some (SaveError ''offline'')\<rparr>)
      True env_later) = [UpdateProgress 1 55 True, FetchQuestions, FetchStats]"
  by (simp add: handleMarkSolved_def reloadQuestions_def reloadStats_def deltaSec_examples
      state_defs q_easy_def blank_question_def)

text \<open>
  Claim C1 as stated fails in its last part: two mark-solved calls on the same question
  send two submissions when the first call's catalog refresh fails after its submission
  went through (the open question keeps its unsolved flag), and also when the first
  submission is rejected and the user retries.
\<close>

theorem mark_solved_twice_counterexample:
  "submissions (snd (mark_solved_twice (detail_state q_easy) env_refresh_failed env_later)) =
     [UpdateProgress 1 45 True, UpdateProgress 1 55 True] \<and>
   submissions (snd (mark_solved_twice (detail_state q_easy) env_rejected env_later)) =
     [UpdateProgress 1 45 True, UpdateProgress 1 55 True]"
  by (simp add: mark_solved_twice_def handleMarkSolved_refresh_failed handleMarkSolved_rejected
      handleMarkSolved_after_error submissions_def is_submission_def Let_def)


text \<open>
  Claim C3. Every progress submission that a mark call sends (detail view or training,
  solved or not, any state and any clock reading) carries an integer duration of at
  least 1; when the start time is missing the duration is exactly 60. The duration is
  the rounded number of seconds since the start, raised to 1: a zero or negative delta
  gives 1.
\<close>

theorem submitted_elapsed_at_least_one:
  "(UpdateProgress i d b \<in> set (snd (handleMarkSolved s solved e)) \<longrightarrow>
      1 \<le> d \<and> (startTime s = None \<longrightarrow> d = 60)) \<and>
   (UpdateProgress i d b \<in> set (snd (handleTrainingMark s solved e)) \<longrightarrow>
      1 \<le> d \<and> (trainingStartTime s = None \<longrightarrow> d = 60)) \<and>
   (now \<le> st \<longrightarrow> deltaSec (Some st) now = 1) \<and>
   deltaSec (Some st) now = max 1 (Math_round (real_of_int (now - st) / 1000))"
proof -
  have detail: "1 \<le> d \<and> (startTime s = None \<longrightarrow> d = 60)"
    if m: "UpdateProgress i d b \<in> set (snd (handleMarkSolved s solved e))"
  proof -
    from handleMarkSolved_calls_cases[of s solved e] m
    have "d = deltaSec (startTime s) (now_start e)" by auto
    then show ?thesis using deltaSec_ge_1 deltaSec_None by auto
  qed
  have training: "1 \<le> d \<and> (trainingStartTime s = None \<longrightarrow> d = 60)"
    if m: "UpdateProgress i d b \<in> set (snd (handleTrainingMark s solved e))"
  proof -
    from handleTrainingMark_calls_cases[of s solved e] m
    have "d = deltaSec (trainingStartTime s) (now_start e)" by auto
    then show ?thesis using deltaSec_ge_1 deltaSec_None by auto
  qed
  have raw: "deltaSec (Some st) now = max 1 (Math_round (real_of_int (now - st) / 1000))"
    by (simp only: deltaSec_def option.case)
  from detail training deltaSec_nonpositive raw show ?thesis by blast
qed

lemma submit_examples:
  "snd (handleMarkSolved (detail_state q_easy) True env_clock_back) =
     [UpdateProgress 1 1 True, FetchQuestions, FetchStats]"
  "snd (handleTrainingMark fresh_training False env_ok) =
     [UpdateProgress 1 60 False, FetchQuestions, FetchStats]"
  "snd (handleMarkSolved fresh_detail False env_ok) =
     [UpdateProgress 2 60 False, FetchQuestions, FetchStats]"
  "snd (handleTrainingMark (training_state q_hard) False env_ok) =
     [UpdateProgress 2 45 False, FetchQuestions, FetchStats]"
proof -
  have sel: "selectedQuestion (detail_state q_easy) = Some q_easy"
    "trainingQuestion fresh_training = Some q_easy"
    "selectedQuestion fresh_detail = Some q_hard"
    "trainingQuestion (training_state q_hard) = Some q_hard"
    by (simp_all add: state_defs)
  have ids: "qid q_easy = 1" "qid q_hard = 2" "\<not> is_solved q_easy"
    by (simp_all add: q_easy_def q_hard_def blank_question_def)
  have st: "startTime (detail_state q_easy) = Some 5000" "trainingStartTime fresh_training = None"
    "startTime fresh_detail = None" "trainingStartTime (training_state q_hard) = Some 5000"
    "now_start env_ok = 50000" "updateProgress_result env_ok = Inr ()"
    "fetchQuestions_result env_ok = Inr [q_easy_solved, q_hard]"
    "now_start env_clock_back = 3000" "updateProgress_result env_clock_back = Inr ()"
    "fetchQuestions_result env_clock_back = Inr [q_easy_solved, q_hard]"
    by (simp_all add: state_defs)
  show "snd (handleMarkSolved (detail_state q_easy) True env_clock_back) =
     [UpdateProgress 1 1 True, FetchQuestions, FetchStats]"
    by (subst handleMarkSolved_calls[OF sel(1)]) (simp_all add: ids st deltaSec_examples)
  show "snd (handleTrainingMark fresh_training False env_ok) =
     [UpdateProgress 1 60 False, FetchQuestions, FetchStats]"
    by (subst handleTrainingMark_calls[OF sel(2)]) (simp_all add: ids st deltaSec_examples)
  show "snd (handleMarkSolved fresh_detail False env_ok) =
     [UpdateProgress 2 60 False, FetchQuestions, FetchStats]"
    by (subst handleMarkSolved_calls[OF sel(3)]) (simp_all add: ids st deltaSec_examples)
  show "snd (handleTrainingMark (training_state q_hard) False env_ok) =
     [UpdateProgress 2 45 False, FetchQuestions, FetchStats]"
    by (subst handleTrainingMark_calls[OF sel(4)]) (simp_all add: ids st deltaSec_examples)
qed

theorem submitted_elapsed_at_least_one_witness:
  "UpdateProgress 1 1 True \<in>
     set (snd (handleMarkSolved (detail_state q_easy) True env_clock_back)) \<and>
   startTime (detail_state q_easy) = Some 5000 \<and> now_start env_clock_back = 3000 \<and>
   UpdateProgress 1 60 False \<in> set (snd (handleTrainingMark fresh_training False env_ok)) \<and>
   trainingStartTime fresh_training = None \<and>
   (1::int) \<le> 1 \<and> (1::int) \<le> 60 \<and> deltaSec (Some 5000) 3000 = 1"
proof -
  have m: "UpdateProgress 1 1 True \<in>
      set (snd (handleMarkSolved (detail_state q_easy) True env_clock_back))"
    "UpdateProgress 1 60 False \<in> set (snd (handleTrainingMark fresh_training False env_ok))"
    by (simp_all add: submit_examples)
  have st: "startTime (detail_state q_easy) = Some 5000" "now_start env_clock_back = 3000"
    "trainingStartTime fresh_training = None"
    by (simp_all add: state_defs)
  from submitted_elapsed_at_least_one[of 1 1 True "detail_state q_easy" True env_clock_back
      3000 5000] m(1)
  have a: "(1::int) \<le> 1" "deltaSec (Some 5000) 3000 = 1" by simp_all
  from submitted_elapsed_at_least_one[of 1 60 False fresh_training False env_ok] m(2)
  have b: "(1::int) \<le> 60" by blast
  from m st a b show ?thesis by blast
qed

text \<open>
  Claim C5. When the submission of a training mark fails, the handler only sets the
  error message: the current training question, the start time, the elapsed counter and
  the running flag are those of before, and a retry from that state submits again. The
  detail view behaves the same way.
\<close>

theorem training_submit_failure_stays:
  "(trainingQuestion s = Some q \<and> \<not> (solved \<and> is_solved q) \<and>
    updateProgress_result e = Inl msg \<longrightarrow>
      handleTrainingMark s solved e =
        (s\<lparr>trainingInfoMessage := Some (SaveError msg)\<rparr>,
         [UpdateProgress (qid q) (deltaSec (trainingStartTime s) (now_start e)) solved]) \<and>
      trainingQuestion (fst (handleTrainingMark s solved e)) = Some q \<and>
      trainingStartTime (fst (handleTrainingMark s solved e)) = trainingStartTime s \<and>
      trainingElapsedSec (fst (handleTrainingMark s solved e)) = trainingElapsedSec s \<and>
      trainingModeRunning (fst (handleTrainingMark s solved e)) = trainingModeRunning s \<and>
      snd (handleTrainingMark (fst (handleTrainingMark s solved e)) solved e') \<noteq> []) \<and>
   (selectedQuestion s = Some q \<and> \<not> (solved \<and> is_solved q) \<and>
    updateProgress_result e = Inl msg \<longrightarrow>
      handleMarkSolved s solved e =
        (s\<lparr>infoMessage := Some (SaveError msg)\<rparr>,
         [UpdateProgress (qid q) (deltaSec (startTime s) (now_start e)) solved]))"
proof -
  have training: "handleTrainingMark s solved e =
        (s\<lparr>trainingInfoMessage := Some (SaveError msg)\<rparr>,
         [UpdateProgress (qid q) (deltaSec (trainingStartTime s) (now_start e)) solved]) \<and>
      trainingQuestion (fst (handleTrainingMark s solved e)) = Some q \<and>
      trainingStartTime (fst (handleTrainingMark s solved e)) = trainingStartTime s \<and>
      trainingElapsedSec (fst (handleTrainingMark s solved e)) = trainingElapsedSec s \<and>
      trainingModeRunning (fst (handleTrainingMark s solved e)) = trainingModeRunning s \<and>
      snd (handleTrainingMark (fst (handleTrainingMark s solved e)) solved e') \<noteq> []"
    if h: "trainingQuestion s = Some q" "\<not> (solved \<and> is_solved q)"
      "updateProgress_result e = Inl msg"
  proof -
    note r = handleTrainingMark_failure[OF h]
    have q': "trainingQuestion (s\<lparr>trainingInfoMessage := Some (SaveError msg)\<rparr>) = Some q"
      using h(1) by simp
    from handleTrainingMark_calls[OF q' h(2), of e'] r h(1) show ?thesis by simp
  qed
  have detail: "handleMarkSolved s solved e =
        (s\<lparr>infoMessage := Some (SaveError msg)\<rparr>,
         [UpdateProgress (qid q) (deltaSec (startTime s) (now_start e)) solved])"
    if "selectedQuestion s = Some q" "\<not> (solved \<and> is_solved q)"
      "updateProgress_result e = Inl msg"
    using that by (rule handleMarkSolved_failure)
  from training detail show ?thesis by blast
qed

theorem training_submit_failure_stays_witness:
  "trainingQuestion (training_state q_easy) = Some q_easy \<and>
   updateProgress_result env_rejected = Inl ''offline'' \<and>
   handleTrainingMark (training_state q_easy) True env_rejected =
     ((training_state q_easy)\<lparr>trainingInfoMessage := Some (SaveError ''offline'')\<rparr>,
      [UpdateProgress 1 45 True]) \<and>
   trainingElapsedSec (fst (handleTrainingMark (training_state q_easy) True env_rejected)) = 7 \<and>
   trainingStartTime (fst (handleTrainingMark (training_state q_easy) True env_rejected)) = Some 5000"
proof -
  have h: "trainingQuestion (training_state q_easy) = Some q_easy"
    "\<not> (True \<and> is_solved q_easy)" "updateProgress_result env_rejected = Inl ''offline''"
    by (simp_all add: state_defs q_easy_def blank_question_def)
  have v: "qid q_easy = 1" "trainingStartTime (training_state q_easy) = Some 5000"
    "now_start env_rejected = 50000" "trainingElapsedSec (training_state q_easy) = 7"
    by (simp_all add: state_defs q_easy_def blank_question_def)
  from training_submit_failure_stays[of "training_state q_easy" q_easy True env_rejected "''offline''"] h
  have "handleTrainingMark (training_state q_easy) True env_rejected =
        ((training_state q_easy)\<lparr>trainingInfoMessage := Some (SaveError ''offline'')\<rparr>,
         [UpdateProgress (qid q_easy)
            (deltaSec (trainingStartTime (training_state q_easy)) (now_start env_rejected)) True])"
    by blast
  with h v show ?thesis by (simp add: deltaSec_examples)
qed

text \<open>
  Claim C10. A mark call with \<open>solved = false\<close> on a current question always starts with
  the submission for that question, whether or not the question is already solved; when
  the submission and the catalog refresh succeed it goes on to fetch the catalog and
  then the statistics. The already-solved short-circuit sends nothing, and applies to
  \<open>solved = true\<close> only.
\<close>

theorem attempt_always_submits:
  "(selectedQuestion s = Some q \<longrightarrow>
      (\<exists>rest. snd (handleMarkSolved s False e) =
         UpdateProgress (qid q) (deltaSec (startTime s) (now_start e)) False # rest) \<and>
      (updateProgress_result e = Inr u \<and> fetchQuestions_result e = Inr qs \<longrightarrow>
         snd (handleMarkSolved s False e) =
           [UpdateProgress (qid q) (deltaSec (startTime s) (now_start e)) False,
            FetchQuestions, FetchStats])) \<and>
   (trainingQuestion s = Some q \<longrightarrow>
      (\<exists>rest. snd (handleTrainingMark s False e) =
         UpdateProgress (qid q) (deltaSec (trainingStartTime s) (now_start e)) False # rest) \<and>
      (updateProgress_result e = Inr u \<and> fetchQuestions_result e = Inr qs \<longrightarrow>
         snd (handleTrainingMark s False e) =
           [UpdateProgress (qid q) (deltaSec (trainingStartTime s) (now_start e)) False,
            FetchQuestions, FetchStats])) \<and>
   (selectedQuestion s = Some q \<and> is_solved q \<longrightarrow> snd (handleMarkSolved s True e) = []) \<and>
   (trainingQuestion s = Some q \<and> is_solved q \<longrightarrow> snd (handleTrainingMark s True e) = [])"
proof -
  have ns: "\<not> (False \<and> is_solved q)" by simp
  have detail: "(\<exists>rest. snd (handleMarkSolved s False e) =
         UpdateProgress (qid q) (deltaSec (startTime s) (now_start e)) False # rest) \<and>
      (updateProgress_result e = Inr u \<and> fetchQuestions_result e = Inr qs \<longrightarrow>
         snd (handleMarkSolved s False e) =
           [UpdateProgress (qid q) (deltaSec (startTime s) (now_start e)) False,
            FetchQuestions, FetchStats])"
    if h: "selectedQuestion s = Some q"
    unfolding handleMarkSolved_calls[OF h ns] by simp
  have training: "(\<exists>rest. snd (handleTrainingMark s False e) =
         UpdateProgress (qid q) (deltaSec (trainingStartTime s) (now_start e)) False # rest) \<and>
      (updateProgress_result e = Inr u \<and> fetchQuestions_result e = Inr qs \<longrightarrow>
         snd (handleTrainingMark s False e) =
           [UpdateProgress (qid q) (deltaSec (trainingStartTime s) (now_start e)) False,
            FetchQuestions, FetchStats])"
    if h: "trainingQuestion s = Some q"
    unfolding handleTrainingMark_calls[OF h ns] by simp
  have d0: "snd (handleMarkSolved s True e) = []"
    if "selectedQuestion s = Some q" "is_solved q"
    using handleMarkSolved_noop[OF that] by simp
  have t0: "snd (handleTrainingMark s True e) = []"
    if "trainingQuestion s = Some q" "is_solved q"
    using handleTrainingMark_noop[OF that] by simp
  from detail training d0 t0 show ?thesis by blast
qed

theorem attempt_always_submits_witness:
  "selectedQuestion fresh_detail = Some q_hard \<and> is_solved q_hard \<and>
   snd (handleMarkSolved fresh_detail False env_ok) =
     [UpdateProgress 2 60 False, FetchQuestions, FetchStats] \<and>
   snd (handleMarkSolved fresh_detail True env_ok) = [] \<and>
   trainingQuestion (training_state q_hard) = Some q_hard \<and>
   snd (handleTrainingMark (training_state q_hard) False env_ok) =
     [UpdateProgress 2 45 False, FetchQuestions, FetchStats] \<and>
   snd (handleTrainingMark (training_state q_hard) True env_ok) = []"
proof -
  have h: "selectedQuestion fresh_detail = Some q_hard" "is_solved q_hard"
    "trainingQuestion (training_state q_hard) = Some q_hard"
    "updateProgress_result env_ok = Inr ()"
    "fetchQuestions_result env_ok = Inr [q_easy_solved, q_hard]"
    by (simp_all add: state_defs q_hard_def blank_question_def)
  have v: "qid q_hard = 2" "startTime fresh_detail = None" "now_start env_ok = 50000"
    "trainingStartTime (training_state q_hard) = Some 5000"
    by (simp_all add: state_defs q_hard_def blank_question_def)
  note inst1 = attempt_always_submits[of fresh_detail q_hard env_ok "()" "[q_easy_solved, q_hard]"]
  note inst2 = attempt_always_submits[of "training_state q_hard" q_hard env_ok "()"
      "[q_easy_solved, q_hard]"]
  from inst1 h have a: "snd (handleMarkSolved fresh_detail False env_ok) =
           [UpdateProgress (qid q_hard) (deltaSec (startTime fresh_detail) (now_start env_ok)) False,
            FetchQuestions, FetchStats]"
    and a0: "snd (handleMarkSolved fresh_detail True env_ok) = []"
    by blast+
  from inst2 h have b: "snd (handleTrainingMark (training_state q_hard) False env_ok) =
           [UpdateProgress (qid q_hard)
              (deltaSec (trainingStartTime (training_state q_hard)) (now_start env_ok)) False,
            FetchQuestions, FetchStats]"
    and b0: "snd (handleTrainingMark (training_state q_hard) True env_ok) = []"
    by blast+
  from h a a0 b b0 show ?thesis by (simp add: v deltaSec_examples)
qed

section \<open>Training selection: claims\<close>

lemma random_index_iff:
  "random_index r n = int i \<longleftrightarrow>
     real i \<le> to_double (r * real n) \<and> to_double (r * real n) < real i + 1"
  by (simp add: random_index_def Math_floor_def floor_eq_iff)

lemma random_index_range:
  assumes "is_double r" and "0 \<le> r" and "r < 1" and "0 < n" and "n < 2 ^ 53"
  shows "0 \<le> random_index r n \<and> random_index r n < int n"
proof -
  from assms(2) have "0 \<le> r * real n" by simp
  from to_double_nonneg[OF this] have a: "0 \<le> \<lfloor>to_double (r * real n)\<rfloor>" by simp
  from product_below[OF assms] have b: "\<lfloor>to_double (r * real n)\<rfloor> < int n"
    by (simp add: floor_less_iff)
  from a b show ?thesis by (simp add: random_index_def Math_floor_def)
qed

lemma product_below_2_53:
  assumes "0 \<le> r" and "r < 1" and "0 < n" and "n < 2 ^ 53"
  shows "r * real n < 2 ^ 53"
proof -
  from assms(4) have "real n < 2 ^ 53"
    by (metis of_nat_less_iff of_nat_numeral of_nat_power)
  moreover from assms(1,2,3) have "r * real n < real n" by simp
  ultimately show ?thesis by simp
qed

lemma to_double_below:
  assumes "0 \<le> x" and "x < 2 ^ 53" and "x * (1 + 1 / 2 ^ 53) < real k" and "0 < k"
  shows "to_double x < real k"
proof (cases "2 powi (- 1022) \<le> x")
  case True
  from assms(2) have "x < 2 ^ 1024"
    by (rule less_le_trans) (rule power_increasing, simp_all)
  from to_double_rel_upper[OF True this] assms(3) show ?thesis by simp
next
  case False
  then have "x < 2 powi (- 1022)" by simp
  also have "(2::real) powi (- 1022) \<le> 2 powi (- 1)"
    by (intro power_int_increasing) simp_all
  finally have "x < 1 / 2" by simp
  from to_double_small[OF this] assms(4) show ?thesis by simp
qed

lemma random_index_sufficient:
  assumes "0 \<le> r" and "r < 1" and "0 < n" and "n < 2 ^ 53"
    and "real i / real n \<le> r" and "r * (1 + 1 / 2 ^ 53) < real (i + 1) / real n"
  shows "random_index r n = int i"
proof -
  let ?x = "r * real n"
  note x53 = product_below_2_53[OF assms(1-4)]
  from assms(3,5) have "real_of_int (int i) \<le> ?x" by (simp add: pos_divide_le_eq)
  from to_double_ge_int[OF x53 this] have lo: "real i \<le> to_double ?x" by simp
  from assms(3,6) have "?x * (1 + 1 / 2 ^ 53) < real (i + 1)"
    by (simp add: pos_less_divide_eq mult.commute mult.left_commute)
  moreover from assms(1) have "0 \<le> ?x" by simp
  ultimately have "to_double ?x < real (i + 1)"
    using x53 by (intro to_double_below) simp_all
  with lo show ?thesis by (simp add: random_index_iff)
qed

lemma random_index_necessary:
  assumes "0 \<le> r" and "r < 1" and "0 < n" and "n < 2 ^ 53" and "random_index r n = int i"
  shows "real i / real n \<le> r * (1 + 1 / 2 ^ 53) \<and> r < real (i + 1) / real n"
proof -
  let ?x = "r * real n"
  note x53 = product_below_2_53[OF assms(1-4)]
  from assms(5) have lo: "real i \<le> to_double ?x" and hi: "to_double ?x < real i + 1"
    by (simp_all add: random_index_iff)
  have up: "?x < real i + 1"
  proof (rule ccontr)
    assume "\<not> ?x < real i + 1"
    then have "real_of_int (int i + 1) \<le> ?x" by simp
    from to_double_ge_int[OF x53 this] hi show False by simp
  qed
  have low: "real i \<le> ?x * (1 + 1 / 2 ^ 53)"
  proof (cases "i = 0")
    case True
    with assms(1) show ?thesis by simp
  next
    case False
    then have "1 \<le> to_double ?x" using lo by simp
    then have "\<not> ?x < 1 / 2" using to_double_small[of ?x] by auto
    then have "1 / 2 \<le> ?x" by simp
    moreover have "(2::real) powi (- 1022) \<le> 2 powi (- 1)"
      by (intro power_int_increasing) simp_all
    ultimately have n: "2 powi (- 1022) \<le> ?x" by simp
    from x53 have "?x < 2 ^ 1024"
      by (rule less_le_trans) (rule power_increasing, simp_all)
    from to_double_rel_upper[OF n this] lo show ?thesis by simp
  qed
  from up assms(3) have "r < real (i + 1) / real n"
    by (simp add: pos_less_divide_eq)
  moreover from low assms(3) have "real i / real n \<le> r * (1 + 1 / 2 ^ 53)"
    by (simp add: pos_divide_le_eq mult.commute mult.left_commute)
  ultimately show ?thesis by simp
qed

lemma training_pool_cases:
  "training_pool qs =
     (if \<exists>q \<in> set qs. \<not> is_solved q then filter (\<lambda>q. \<not> is_solved q) qs else qs)"
  by (auto simp: training_pool_def Let_def filter_empty_conv)

lemma training_pool_nonempty: "qs \<noteq> [] \<Longrightarrow> training_pool qs \<noteq> []"
  by (simp add: training_pool_def Let_def)

lemma training_pool_subset: "set (training_pool qs) \<subseteq> set qs"
  by (auto simp: training_pool_def Let_def)

lemma training_pool_length: "length (training_pool qs) \<le> length qs"
  by (simp add: training_pool_def Let_def)

lemma pick_in_range:
  assumes "is_double r" and "0 \<le> r" and "r < 1" and "qs \<noteq> []" and "length qs < 2 ^ 53"
  shows "pickRandomTrainingQuestion qs r =
           Some (training_pool qs ! nat (random_index r (length (training_pool qs)))) \<and>
         nat (random_index r (length (training_pool qs))) < length (training_pool qs)"
proof -
  from training_pool_nonempty[OF assms(4)] have n: "0 < length (training_pool qs)" by simp
  from training_pool_length[of qs] assms(5) have m: "length (training_pool qs) < 2 ^ 53"
    by simp
  from random_index_range[OF assms(1-3) n m] show ?thesis
    using assms(4) n by (auto simp: pickRandomTrainingQuestion_def Let_def nat_less_iff)
qed

text \<open>
  Claim C4. \<^verbatim>\<open>Math.random()\<close> draws a double \<open>r\<close> with \<open>0 \<le> r < 1\<close>, and an array has
  fewer than \<open>2^53\<close> elements. Then, for every non-empty catalog, the selection returns a
  question of the pool, where the pool is the unsolved questions if there is one and the
  whole catalog otherwise. The question returned is the pool's element at the index
  \<open>\<lfloor>r * n\<rfloor>\<close> computed in doubles (\<open>n\<close> the pool's size): index \<open>i\<close> is chosen exactly
  when the rounded product lies in \<open>[i, i + 1)\<close>, which is the case for every \<open>r\<close> from
  \<open>i/n\<close> up to \<open>(i+1)/n\<close> less one rounding error, and for no \<open>r\<close> outside \<open>i/n\<close> less
  one rounding error up to \<open>(i+1)/n\<close>; so the indices share the unit interval in \<open>n\<close>
  consecutive parts of equal length up to a relative error of \<open>2^-53\<close> at the borders,
  which is what a uniform choice is for a uniform \<open>r\<close>. A pool of one element always
  gives that element, and no question is returned only for the empty catalog.
\<close>

theorem training_selection_policy:
  "is_double r \<and> 0 \<le> r \<and> r < 1 \<and> length qs < 2 ^ 53 \<longrightarrow>
     (qs \<noteq> [] \<longrightarrow>
        (\<exists>q. pickRandomTrainingQuestion qs r = Some q \<and> q \<in> set (training_pool qs) \<and>
           q \<in> set qs) \<and>
        pickRandomTrainingQuestion qs r =
          Some (training_pool qs ! nat (random_index r (length (training_pool qs))))) \<and>
     training_pool qs =
       (if \<exists>q \<in> set qs. \<not> is_solved q then filter (\<lambda>q. \<not> is_solved q) qs else qs) \<and>
     (i < length (training_pool qs) \<longrightarrow>
        (pickRandomTrainingQuestion qs r = Some (training_pool qs ! i) \<and>
         random_index r (length (training_pool qs)) = int i \<longleftrightarrow>
           real i \<le> to_double (r * real (length (training_pool qs))) \<and>
           to_double (r * real (length (training_pool qs))) < real i + 1) \<and>
        (real i / real (length (training_pool qs)) \<le> r \<and>
         r * (1 + 1 / 2 ^ 53) < real (i + 1) / real (length (training_pool qs)) \<longrightarrow>
           pickRandomTrainingQuestion qs r = Some (training_pool qs ! i)) \<and>
        (random_index r (length (training_pool qs)) = int i \<longrightarrow>
           real i / real (length (training_pool qs)) \<le> r * (1 + 1 / 2 ^ 53) \<and>
           r < real (i + 1) / real (length (training_pool qs)))) \<and>
     (training_pool qs = [x] \<longrightarrow> pickRandomTrainingQuestion qs r = Some x) \<and>
     (pickRandomTrainingQuestion qs r = None \<longleftrightarrow> qs = [])"
proof
  assume r: "is_double r \<and> 0 \<le> r \<and> r < 1 \<and> length qs < 2 ^ 53"
  then have rd: "is_double r" and r0: "0 \<le> r" and r1: "r < 1" and len: "length qs < 2 ^ 53"
    by simp_all
  let ?pool = "training_pool qs"
  from training_pool_length[of qs] len have m: "length ?pool < 2 ^ 53" by simp
  have some: "(\<exists>q. pickRandomTrainingQuestion qs r = Some q \<and> q \<in> set ?pool \<and> q \<in> set qs) \<and>
        pickRandomTrainingQuestion qs r = Some (?pool ! nat (random_index r (length ?pool)))"
    if ne: "qs \<noteq> []"
    using pick_in_range[OF rd r0 r1 ne len] training_pool_subset[of qs] by (auto dest: nth_mem)
  have uniform: "(pickRandomTrainingQuestion qs r = Some (?pool ! i) \<and>
         random_index r (length ?pool) = int i \<longleftrightarrow>
           real i \<le> to_double (r * real (length ?pool)) \<and>
           to_double (r * real (length ?pool)) < real i + 1) \<and>
        (real i / real (length ?pool) \<le> r \<and>
         r * (1 + 1 / 2 ^ 53) < real (i + 1) / real (length ?pool) \<longrightarrow>
           pickRandomTrainingQuestion qs r = Some (?pool ! i)) \<and>
        (random_index r (length ?pool) = int i \<longrightarrow>
           real i / real (length ?pool) \<le> r * (1 + 1 / 2 ^ 53) \<and>
           r < real (i + 1) / real (length ?pool))"
    if i: "i < length ?pool"
  proof -
    from i have n: "0 < length ?pool" by (cases ?pool) auto
    from i have ne: "qs \<noteq> []" by (auto simp: training_pool_def Let_def)
    note p = pick_in_range[OF rd r0 r1 ne len]
    have a: "pickRandomTrainingQuestion qs r = Some (?pool ! i) \<and>
         random_index r (length ?pool) = int i \<longleftrightarrow>
           real i \<le> to_double (r * real (length ?pool)) \<and>
           to_double (r * real (length ?pool)) < real i + 1"
      using p random_index_iff[of r "length ?pool" i] by auto
    have b: "pickRandomTrainingQuestion qs r = Some (?pool ! i)"
      if "real i / real (length ?pool) \<le> r"
        "r * (1 + 1 / 2 ^ 53) < real (i + 1) / real (length ?pool)"
      using p random_index_sufficient[OF r0 r1 n m that] by simp
    have c: "real i / real (length ?pool) \<le> r * (1 + 1 / 2 ^ 53) \<and>
           r < real (i + 1) / real (length ?pool)"
      if "random_index r (length ?pool) = int i"
      using random_index_necessary[OF r0 r1 n m that] .
    from a b c show ?thesis by blast
  qed
  have single: "pickRandomTrainingQuestion qs r = Some x" if p: "?pool = [x]"
  proof -
    from p have ne: "qs \<noteq> []" by (auto simp: training_pool_def Let_def)
    from pick_in_range[OF rd r0 r1 ne len] p show ?thesis by simp
  qed
  have none: "pickRandomTrainingQuestion qs r = None \<longleftrightarrow> qs = []"
  proof
    assume "pickRandomTrainingQuestion qs r = None"
    with some show "qs = []" by fastforce
  next
    assume "qs = []"
    then show "pickRandomTrainingQuestion qs r = None"
      by (simp add: pickRandomTrainingQuestion_def)
  qed
  from some training_pool_cases uniform single none
  show "(qs \<noteq> [] \<longrightarrow>
        (\<exists>q. pickRandomTrainingQuestion qs r = Some q \<and> q \<in> set (training_pool qs) \<and>
           q \<in> set qs) \<and>
        pickRandomTrainingQuestion qs r =
          Some (training_pool qs ! nat (random_index r (length (training_pool qs))))) \<and>
     training_pool qs =
       (if \<exists>q \<in> set qs. \<not> is_solved q then filter (\<lambda>q. \<not> is_solved q) qs else qs) \<and>
     (i < length (training_pool qs) \<longrightarrow>
        (pickRandomTrainingQuestion qs r = Some (training_pool qs ! i) \<and>
         random_index r (length (training_pool qs)) = int i \<longleftrightarrow>
           real i \<le> to_double (r * real (length (training_pool qs))) \<and>
           to_double (r * real (length (training_pool qs))) < real i + 1) \<and>
        (real i / real (length (training_pool qs)) \<le> r \<and>
         r * (1 + 1 / 2 ^ 53) < real (i + 1) / real (length (training_pool qs)) \<longrightarrow>
           pickRandomTrainingQuestion qs r = Some (training_pool qs ! i)) \<and>
        (random_index r (length (training_pool qs)) = int i \<longrightarrow>
           real i / real (length (training_pool qs)) \<le> r * (1 + 1 / 2 ^ 53) \<and>
           r < real (i + 1) / real (length (training_pool qs)))) \<and>
     (training_pool qs = [x] \<longrightarrow> pickRandomTrainingQuestion qs r = Some x) \<and>
     (pickRandomTrainingQuestion qs r = None \<longleftrightarrow> qs = [])"
    by blast
qed

lemma pool_examples:
  "training_pool catalog_A = [q_easy]"
  "training_pool all_solved_catalog = [q_easy_solved, q_hard]"
  by (simp_all add: training_pool_def all_solved_catalog_def catalog_A_def q_easy_solved_def
      q_easy_def q_hard_def blank_question_def)

lemma double_examples:
  "is_double (3 / 4)" "to_double (3 / 4) = 3 / 4" "to_double (3 / 2) = 3 / 2"
proof -
  have e1: "expo (3 / 4) = - 1" by (rule expo_eq) simp_all
  have e2: "expo (3 / 2) = 0" by (rule expo_eq) simp_all
  show a: "to_double (3 / 4) = 3 / 4"
    by (rule to_double_exact[OF e1, of 6755399441055744]) simp
  show "to_double (3 / 2) = 3 / 2"
    by (rule to_double_exact[OF e2, of 6755399441055744]) simp
  from a show "is_double (3 / 4)" by (simp add: is_double_def)
qed

lemma random_index_examples:
  "random_index (3 / 4) (Suc 0) = 0" "random_index (3 / 4) (Suc (Suc 0)) = 1"
  by (simp_all add: random_index_def Math_floor_def double_examples)

text \<open>
  Rounding of the product matters: for the double \<open>2573485501354569 / 2^52\<close>, just
  below \<open>4/7\<close>, and a pool of 7 the exact product is below 4, halfway between two
  doubles, and rounds to 4: the index is 4, not 3.
\<close>

lemma round_half_even_tie: "round_half_even (18014398509481983 / 2) = 9007199254740992"
proof -
  have f: "\<lfloor>18014398509481983 / 2 :: real\<rfloor> = 9007199254740991" by simp
  show ?thesis unfolding round_half_even_def Let_def f by simp
qed

lemma random_index_rounds_up:
  "is_double (2573485501354569 / 2 ^ 52) \<and>
   2573485501354569 / 2 ^ 52 * (7::real) < 4 \<and>
   random_index (2573485501354569 / 2 ^ 52) 7 = 4"
proof -
  have e0: "expo (2573485501354569 / 2 ^ 52) = - 1" by (rule expo_eq) simp_all
  have d: "is_double (2573485501354569 / 2 ^ 52)" unfolding is_double_def
    by (rule to_double_exact[OF e0, of 5146971002709138]) simp
  define x :: real where "x = 2573485501354569 / 2 ^ 52 * 7"
  have e: "expo x = 1" unfolding x_def by (rule expo_eq) simp_all
  have u: "ulp x = 1 / 2 ^ 51" by (simp add: ulp_def e power_int_minus_divide)
  have q: "x / (1 / 2 ^ 51) = 18014398509481983 / 2" by (simp add: x_def)
  have "to_double x = real_of_int (round_half_even (x / ulp x)) * ulp x"
    by (simp only: to_double_def)
  also have "\<dots> = real_of_int 9007199254740992 * (1 / 2 ^ 51)"
    by (simp only: u q round_half_even_tie)
  also have "\<dots> = 4" by simp
  finally have "to_double x = 4" .
  then have "random_index (2573485501354569 / 2 ^ 52) 7 = 4"
    by (simp add: random_index_def Math_floor_def x_def)
  with d show ?thesis by simp
qed

theorem training_selection_policy_witness:
  "is_double (3 / 4) \<and> (0::real) \<le> 3 / 4 \<and> (3 / 4 :: real) < 1 \<and> catalog_A \<noteq> [] \<and>
   training_pool catalog_A = [q_easy] \<and>
   pickRandomTrainingQuestion catalog_A (3 / 4) = Some q_easy \<and>
   training_pool all_solved_catalog = [q_easy_solved, q_hard] \<and>
   pickRandomTrainingQuestion all_solved_catalog (3 / 4) = Some q_hard \<and>
   pickRandomTrainingQuestion [] (3 / 4) = None"
proof -
  have len: "length catalog_A < 2 ^ 53" "length all_solved_catalog < 2 ^ 53"
    "length ([] :: question list) < 2 ^ 53"
    by (simp_all add: catalog_A_def all_solved_catalog_def)
  have r: "is_double (3 / 4) \<and> (0::real) \<le> 3 / 4 \<and> (3 / 4 :: real) < 1"
    by (simp add: double_examples)
  have ne: "catalog_A \<noteq> []" "all_solved_catalog \<noteq> []"
    by (simp_all add: catalog_A_def all_solved_catalog_def)
  from training_selection_policy[of "3 / 4" catalog_A 0 q_easy] r len(1) pool_examples(1)
  have a: "pickRandomTrainingQuestion catalog_A (3 / 4) = Some q_easy" by blast
  from training_selection_policy[of "3 / 4" all_solved_catalog 0 q_hard] r len(2) ne(2)
  have "pickRandomTrainingQuestion all_solved_catalog (3 / 4) =
          Some (training_pool all_solved_catalog !
            nat (random_index (3 / 4) (length (training_pool all_solved_catalog))))" by blast
  then have b: "pickRandomTrainingQuestion all_solved_catalog (3 / 4) = Some q_hard"
    by (simp add: pool_examples random_index_examples)
  from training_selection_policy[of "3 / 4" "[]" 0 q_hard] r len(3)
  have c: "pickRandomTrainingQuestion [] (3 / 4) = None" by blast
  from r ne a b c show ?thesis by (simp add: pool_examples)
qed

section \<open>Reveal flags and timer: claims\<close>

lemma refreshed_same_id:
  "refreshed qs (Some x) (Some x) = Some y \<Longrightarrow> qid y = qid x"
  by (auto simp: refreshed_def split: option.splits dest: find_by_id_Some)

lemma refreshed_Some: "\<exists>y. refreshed qs (Some x) (Some x) = Some y \<and> qid y = qid x"
  by (auto simp: refreshed_def split: option.splits dest: find_by_id_Some)

lemma startTrainingSession_picked:
  assumes "pickRandomTrainingQuestion (questions s) (random_draw e) = Some q"
  shows "trainingQuestion (fst (startTrainingSession s e)) = Some q \<and>
         training_flags_hidden (fst (startTrainingSession s e)) \<and>
         trainingModeRunning (fst (startTrainingSession s e))"
proof -
  from assms have ne: "questions s \<noteq> []"
    by (auto simp: pickRandomTrainingQuestion_def)
  with assms show ?thesis
    by (simp add: startTrainingSession_def Let_def training_flags_hidden_def)
qed

lemma handleTrainingMark_advance:
  assumes "trainingQuestion s = Some tq" and "\<not> (solved \<and> is_solved tq)"
    and "updateProgress_result e = Inr u" and "fetchQuestions_result e = Inr qs"
    and "fetchStats_result e = Inr st"
    and "pickRandomTrainingQuestion (questions s) (random_draw e) = Some next"
  shows "trainingQuestion (fst (handleTrainingMark s solved e)) = Some next \<and>
         training_flags_hidden (fst (handleTrainingMark s solved e)) \<and>
         trainingStartTime (fst (handleTrainingMark s solved e)) = Some (now_end e)"
  using assms
  by (auto simp: handleTrainingMark_def Let_def reloadQuestions_def reloadStats_def
      training_flags_hidden_def)

lemma startTrainingSession_switch:
  assumes "trainingQuestion (fst (startTrainingSession s e)) = Some n"
    and "map_option qid (trainingQuestion s) \<noteq> Some (qid n)"
  shows "training_flags_hidden (fst (startTrainingSession s e))"
proof (cases "questions s = []")
  case True
  then have "pickRandomTrainingQuestion (questions s) (random_draw e) = None"
    by (simp add: pickRandomTrainingQuestion_def)
  with True assms show ?thesis
    by (auto simp: startTrainingSession_def Let_def reloadQuestions_def split: sum.splits)
next
  case False
  show ?thesis
  proof (cases "pickRandomTrainingQuestion (questions s) (random_draw e)")
    case None
    with False assms show ?thesis by (simp add: startTrainingSession_def Let_def)
  next
    case (Some q)
    from startTrainingSession_picked[OF Some] show ?thesis by simp
  qed
qed

lemma handleTrainingMark_switch:
  assumes "trainingQuestion (fst (handleTrainingMark s solved e)) = Some n"
    and "map_option qid (trainingQuestion s) \<noteq> Some (qid n)"
  shows "training_flags_hidden (fst (handleTrainingMark s solved e))"
proof (cases "trainingQuestion s")
  case None
  with assms show ?thesis by (simp add: handleTrainingMark_def)
next
  case (Some tq)
  show ?thesis
  proof (cases "solved \<and> is_solved tq")
    case True
    with Some assms show ?thesis by (simp add: handleTrainingMark_def)
  next
    case ns: False
    show ?thesis
    proof (cases "updateProgress_result e")
      case (Inl msg)
      from handleTrainingMark_failure[OF Some ns Inl] Some assms show ?thesis by simp
    next
      case (Inr u)
      show ?thesis
      proof (cases "fetchQuestions_result e")
        case (Inl msg)
        with Some ns Inr assms show ?thesis
          by (auto simp: handleTrainingMark_def Let_def reloadQuestions_def split: if_splits)
      next
        case qs: (Inr qs)
        from refreshed_Some[of qs tq] obtain y
          where y: "refreshed qs (Some tq) (Some tq) = Some y" "qid y = qid tq" by blast
        show ?thesis
        proof (cases "fetchStats_result e")
          case (Inl msg)
          with Some ns Inr qs y assms show ?thesis
            by (auto simp: handleTrainingMark_def Let_def reloadQuestions_def reloadStats_def
                split: if_splits)
        next
          case st: (Inr st)
          show ?thesis
          proof (cases "pickRandomTrainingQuestion (questions s) (random_draw e)")
            case None
            with \<open>trainingQuestion s = Some tq\<close> ns Inr qs st assms show ?thesis
              by (auto simp: handleTrainingMark_def Let_def reloadQuestions_def reloadStats_def
                  split: if_splits)
          next
            case (Some nx)
            from handleTrainingMark_advance[OF \<open>trainingQuestion s = Some tq\<close> ns Inr qs st Some]
            show ?thesis by simp
          qed
        qed
      qed
    qed
  qed
qed


text \<open>
  Claim C8. When a training session starts on a picked question, and when a training
  mark advances to the next picked question after its submission and refreshes
  succeeded, the three training reveal flags are hidden afterwards; more generally,
  whenever either handler ends with a training question whose id is not the one of
  before, the three flags are hidden. In the detail view, selecting the question that is
  already open (same id) changes the start time and nothing else, so reveal flags and
  message stay; selecting another question (or a first one) sets it as the open question,
  restarts the clock, hides the three reveal blocks and clears the message.
\<close>

theorem reveal_flags_reset:
  "(pickRandomTrainingQuestion (questions s) (random_draw e) = Some q \<longrightarrow>
      trainingQuestion (fst (startTrainingSession s e)) = Some q \<and>
      training_flags_hidden (fst (startTrainingSession s e))) \<and>
   (trainingQuestion s = Some tq \<and> \<not> (solved \<and> is_solved tq) \<and>
    updateProgress_result e = Inr u \<and> fetchQuestions_result e = Inr qs \<and>
    fetchStats_result e = Inr st \<and>
    pickRandomTrainingQuestion (questions s) (random_draw e) = Some q \<longrightarrow>
      trainingQuestion (fst (handleTrainingMark s solved e)) = Some q \<and>
      training_flags_hidden (fst (handleTrainingMark s solved e))) \<and>
   (trainingQuestion (fst (startTrainingSession s e)) = Some n \<and>
    map_option qid (trainingQuestion s) \<noteq> Some (qid n) \<longrightarrow>
      training_flags_hidden (fst (startTrainingSession s e))) \<and>
   (trainingQuestion (fst (handleTrainingMark s solved e)) = Some n \<and>
    map_option qid (trainingQuestion s) \<noteq> Some (qid n) \<longrightarrow>
      training_flags_hidden (fst (handleTrainingMark s solved e))) \<and>
   (selectedQuestion s = Some sq \<and> qid sq = qid q \<longrightarrow>
      handleSelectQuestion s q now = s\<lparr>startTime := Some now\<rparr>) \<and>
   (selectedQuestion s = None \<or> (selectedQuestion s = Some sq \<and> qid sq \<noteq> qid q) \<longrightarrow>
      handleSelectQuestion s q now =
        s\<lparr>selectedQuestion := Some q, startTime := Some now, showHint := False,
          showSolution := False, showAnswer := False, infoMessage := None\<rparr>)"
proof -
  have start: "trainingQuestion (fst (startTrainingSession s e)) = Some q \<and>
      training_flags_hidden (fst (startTrainingSession s e))"
    if "pickRandomTrainingQuestion (questions s) (random_draw e) = Some q"
    using startTrainingSession_picked[OF that] by simp
  have advance: "trainingQuestion (fst (handleTrainingMark s solved e)) = Some q \<and>
      training_flags_hidden (fst (handleTrainingMark s solved e))"
    if "trainingQuestion s = Some tq" "\<not> (solved \<and> is_solved tq)"
      "updateProgress_result e = Inr u" "fetchQuestions_result e = Inr qs"
      "fetchStats_result e = Inr st"
      "pickRandomTrainingQuestion (questions s) (random_draw e) = Some q"
    using handleTrainingMark_advance[OF that] by simp
  have same: "handleSelectQuestion s q now = s\<lparr>startTime := Some now\<rparr>"
    if "selectedQuestion s = Some sq" "qid sq = qid q"
    using that by (simp add: handleSelectQuestion_def)
  have other: "handleSelectQuestion s q now =
        s\<lparr>selectedQuestion := Some q, startTime := Some now, showHint := False,
          showSolution := False, showAnswer := False, infoMessage := None\<rparr>"
    if "selectedQuestion s = None \<or> (selectedQuestion s = Some sq \<and> qid sq \<noteq> qid q)"
    using that by (auto simp: handleSelectQuestion_def)
  from start advance startTrainingSession_switch handleTrainingMark_switch same other
  show ?thesis by blast
qed

lemma pick_example:
  "pickRandomTrainingQuestion catalog_A (3 / 4) = Some q_easy"
proof -
  have "catalog_A \<noteq> []" by (simp add: catalog_A_def)
  then show ?thesis
    by (simp add: pickRandomTrainingQuestion_def pool_examples random_index_examples)
qed

theorem reveal_flags_reset_witness:
  "trainingShowHint idle_state \<and> trainingShowAnswer idle_state \<and>
   trainingQuestion (fst (startTrainingSession idle_state env_ok)) = Some q_easy \<and>
   training_flags_hidden (fst (startTrainingSession idle_state env_ok)) \<and>
   trainingShowHint (training_state q_hard) \<and>
   trainingQuestion (fst (handleTrainingMark (training_state q_hard) False env_ok)) = Some q_easy \<and>
   training_flags_hidden (fst (handleTrainingMark (training_state q_hard) False env_ok)) \<and>
   showHint (detail_state q_easy) \<and> qid q_other = qid q_easy \<and>
   handleSelectQuestion (detail_state q_easy) q_other 9000 =
     (detail_state q_easy)\<lparr>startTime := Some 9000\<rparr> \<and>
   showHint (handleSelectQuestion (detail_state q_easy) q_other 9000) \<and>
   handleSelectQuestion (detail_state q_easy) q_hard 9000 =
     (detail_state q_easy)\<lparr>selectedQuestion := Some q_hard, startTime := Some 9000,
        showHint := False, showSolution := False, showAnswer := False, infoMessage := None\<rparr>"
proof -
  have st: "trainingShowHint idle_state" "trainingShowAnswer idle_state"
    "trainingShowHint (training_state q_hard)" "showHint (detail_state q_easy)"
    by (simp_all add: idle_state_def state_defs)
  have pk: "pickRandomTrainingQuestion (questions idle_state) (random_draw env_ok) = Some q_easy"
    "pickRandomTrainingQuestion (questions (training_state q_hard)) (random_draw env_ok) = Some q_easy"
    by (simp_all add: idle_state_def state_defs pick_example)
  have tr: "trainingQuestion (training_state q_hard) = Some q_hard"
    "\<not> (False \<and> is_solved q_hard)" "updateProgress_result env_ok = Inr ()"
    "fetchQuestions_result env_ok = Inr [q_easy_solved, q_hard]"
    "fetchStats_result env_ok = Inr no_stats"
    by (simp_all add: state_defs)
  have sel: "selectedQuestion (detail_state q_easy) = Some q_easy" "qid q_easy = qid q_other"
    "qid q_easy \<noteq> qid q_hard"
    by (simp_all add: state_defs q_other_def q_easy_def q_hard_def blank_question_def)
  from reveal_flags_reset[of idle_state env_ok q_easy] pk(1)
  have a: "trainingQuestion (fst (startTrainingSession idle_state env_ok)) = Some q_easy \<and>
      training_flags_hidden (fst (startTrainingSession idle_state env_ok))" by blast
  from reveal_flags_reset[of "training_state q_hard" env_ok q_easy q_hard False "()"
      "[q_easy_solved, q_hard]" no_stats] pk(2) tr
  have b: "trainingQuestion (fst (handleTrainingMark (training_state q_hard) False env_ok)) = Some q_easy \<and>
      training_flags_hidden (fst (handleTrainingMark (training_state q_hard) False env_ok))"
    by blast
  from reveal_flags_reset[where s = "detail_state q_easy" and sq = q_easy and q = q_other
      and now = 9000] sel
  have c: "handleSelectQuestion (detail_state q_easy) q_other 9000 =
     (detail_state q_easy)\<lparr>startTime := Some 9000\<rparr>" by simp
  from reveal_flags_reset[where s = "detail_state q_easy" and sq = q_easy and q = q_hard
      and now = 9000] sel
  have d: "handleSelectQuestion (detail_state q_easy) q_hard 9000 =
     (detail_state q_easy)\<lparr>selectedQuestion := Some q_hard, startTime := Some 9000,
        showHint := False, showSolution := False, showAnswer := False, infoMessage := None\<rparr>"
    by simp
  from st a b c d sel show ?thesis by simp
qed

text \<open>
  Claim C9, as amended. While the training timer is installed (session running, start
  time recorded), a tick at wall-clock time \<open>now\<close> sets the displayed counter to
  \<open>max 0 \<lfloor>(now - startedAt) / 1000\<rfloor>\<close>: this is \<open>\<lfloor>(now - startedAt) / 1000\<rfloor>\<close> whenever
  \<open>now\<close> is not before the start, and 0 when \<open>now\<close> precedes it.
\<close>

theorem timer_tick_elapsed:
  "timer_active s \<and> trainingStartTime s = Some st \<longrightarrow>
     trainingElapsedSec (timer_tick s now) =
       max 0 (Math_floor (real_of_int (now - st) / 1000)) \<and>
     (st \<le> now \<longrightarrow>
        trainingElapsedSec (timer_tick s now) = Math_floor (real_of_int (now - st) / 1000)) \<and>
     (now < st \<longrightarrow> trainingElapsedSec (timer_tick s now) = 0)"
proof
  assume a: "timer_active s \<and> trainingStartTime s = Some st"
  then have tick: "trainingElapsedSec (timer_tick s now) =
       max 0 (Math_floor (real_of_int (now - st) / 1000))"
    by (simp add: timer_tick_def elapsed_display_def)
  have ge: "0 \<le> Math_floor (real_of_int (now - st) / 1000)" if "st \<le> now"
    unfolding Math_floor_div1000 using that by simp
  have lt: "Math_floor (real_of_int (now - st) / 1000) < 0" if "now < st"
    unfolding Math_floor_div1000 using that by simp
  from tick ge lt
  show "trainingElapsedSec (timer_tick s now) =
       max 0 (Math_floor (real_of_int (now - st) / 1000)) \<and>
     (st \<le> now \<longrightarrow>
        trainingElapsedSec (timer_tick s now) = Math_floor (real_of_int (now - st) / 1000)) \<and>
     (now < st \<longrightarrow> trainingElapsedSec (timer_tick s now) = 0)"
    by (auto simp: max_def)
qed

lemma timer_examples:
  "timer_active (training_state q_easy)" "trainingStartTime (training_state q_easy) = Some 5000"
  "Math_floor (real_of_int (3000 - 5000) / 1000) = - 2"
  "Math_floor (real_of_int (12345 - 5000) / 1000) = 7"
  by (simp_all add: timer_active_def state_defs Math_floor_def)

text \<open>
  Claim C9 as stated fails when \<open>now\<close> precedes the start: with the start at 5000 ms and
  a tick at 3000 ms the counter shows 0, while \<open>\<lfloor>(3000 - 5000) / 1000\<rfloor>\<close> is \<open>-2\<close>.
\<close>

theorem timer_tick_before_start_counterexample:
  "trainingModeRunning (training_state q_easy) \<and>
   trainingStartTime (training_state q_easy) = Some 5000 \<and>
   trainingElapsedSec (timer_tick (training_state q_easy) 3000) = 0 \<and>
   Math_floor (real_of_int (3000 - 5000) / 1000) = - 2"
  by (simp add: timer_tick_def timer_active_def elapsed_display_def Math_floor_def state_defs)

theorem timer_tick_elapsed_witness:
  "timer_active (training_state q_easy) \<and>
   trainingStartTime (training_state q_easy) = Some 5000 \<and>
   trainingElapsedSec (timer_tick (training_state q_easy) 12345) = 7 \<and>
   trainingElapsedSec (timer_tick (training_state q_easy) 3000) = 0"
proof -
  note h = timer_examples(1,2)
  from timer_tick_elapsed[of "training_state q_easy" 5000 12345] h
  have a: "trainingElapsedSec (timer_tick (training_state q_easy) 12345) = 7"
    by (simp add: Math_floor_def)
  from timer_tick_elapsed[of "training_state q_easy" 5000 3000] h
  have b: "trainingElapsedSec (timer_tick (training_state q_easy) 3000) = 0"
    by simp
  from h a b show ?thesis by blast
qed


text \<open>
  The next training question is drawn from the catalog of the handler's own render, not
  from the catalog the handler has just fetched: after the only unsolved question is
  marked solved, the session shows the same question again, in its unsolved copy, and a
  second mark submits again.
\<close>

lemma training_mark_repicks_from_snapshot:
  "trainingQuestion (fst (handleTrainingMark (training_state q_easy) True env_ok)) = Some q_easy \<and>
   questions (fst (handleTrainingMark (training_state q_easy) True env_ok)) =
     [q_easy_solved, q_hard] \<and>
   submissions (snd (handleTrainingMark
       (fst (handleTrainingMark (training_state q_easy) True env_ok)) True env_later)) =
     [UpdateProgress 1 10 True]"
proof -
  have h: "trainingQuestion (training_state q_easy) = Some q_easy"
    "\<not> (True \<and> is_solved q_easy)" "updateProgress_result env_ok = Inr ()"
    "fetchQuestions_result env_ok = Inr [q_easy_solved, q_hard]"
    "fetchStats_result env_ok = Inr no_stats"
    "pickRandomTrainingQuestion (questions (training_state q_easy)) (random_draw env_ok) =
       Some q_easy"
    by (simp_all add: state_defs pick_example q_easy_def blank_question_def)
  note adv = handleTrainingMark_advance[OF h]
  have qs: "questions (fst (handleTrainingMark (training_state q_easy) True env_ok)) =
     [q_easy_solved, q_hard]"
    using h by (simp add: handleTrainingMark_def Let_def reloadQuestions_def reloadStats_def)
  from adv have tq: "trainingQuestion (fst (handleTrainingMark (training_state q_easy) True env_ok)) =
      Some q_easy"
    and st: "trainingStartTime (fst (handleTrainingMark (training_state q_easy) True env_ok)) =
      Some (now_end env_ok)" by simp_all
  have d: "deltaSec (Some (now_end env_ok)) (now_start env_later) = 10" "qid q_easy = 1"
    "updateProgress_result env_later = Inr ()"
    "fetchQuestions_result env_later = Inr [q_easy_solved, q_hard]"
    by (simp_all add: env_ok_def env_later_def deltaSec_Some q_easy_def blank_question_def)
  from handleTrainingMark_calls[OF tq h(2), of env_later] st d tq qs show ?thesis
    by (simp add: submissions_def is_submission_def)
qed

end
